theory Spec2Isabelle
  imports Complex_Main
begin

section \<open>Numbers, arrays and errors\<close>

text \<open>
  The hydrograph of \<^verbatim>\<open>gwhat/hydrograph4.py\<close> computes with NumPy arrays of 64-bit floats.
  A float is modelled by its IEEE-754 value class: a finite number, one of the two
  infinities, or NaN. Finite numbers are exact reals: the special values and their
  arithmetic follow IEEE-754, rounding, overflow to infinity and the sign of zero are
  left out.
\<close>

datatype float64 = Num real | PosInf | NegInf | NaN

datatype error =
    ValueError            \<comment> \<open>NumPy: reduction of a zero-size array\<close>
  | IndexError            \<comment> \<open>index out of range\<close>
  | TypeError             \<comment> \<open>subscript of \<^verbatim>\<open>None\<close>\<close>
  | UnboundLocalError     \<comment> \<open>a local variable read before any branch has set it\<close>
  | ZeroDivisionError     \<comment> \<open>Python division or modulo by zero\<close>
  | IllegalMonthError     \<comment> \<open>\<^verbatim>\<open>calendar.monthrange\<close>\<close>
  | XLDateNegative
  | XLDateAmbiguous
  | XLDateTooLarge
  | XLDateBadDatemode
  | XLDateBadTuple

fun isnan :: "float64 \<Rightarrow> bool" where
  "isnan NaN = True"
| "isnan _ = False"

fun fneg :: "float64 \<Rightarrow> float64" where
  "fneg (Num x) = Num (- x)"
| "fneg PosInf = NegInf"
| "fneg NegInf = PosInf"
| "fneg NaN = NaN"

fun fadd :: "float64 \<Rightarrow> float64 \<Rightarrow> float64" where
  "fadd NaN _ = NaN"
| "fadd _ NaN = NaN"
| "fadd (Num x) (Num y) = Num (x + y)"
| "fadd (Num x) PosInf = PosInf"
| "fadd (Num x) NegInf = NegInf"
| "fadd PosInf (Num y) = PosInf"
| "fadd NegInf (Num y) = NegInf"
| "fadd PosInf PosInf = PosInf"
| "fadd NegInf NegInf = NegInf"
| "fadd PosInf NegInf = NaN"
| "fadd NegInf PosInf = NaN"

definition fsub :: "float64 \<Rightarrow> float64 \<Rightarrow> float64" where
  "fsub x y = fadd x (fneg y)"

text \<open>The sign of an infinity multiplied or divided by a finite number.\<close>

definition signed_inf :: "bool \<Rightarrow> float64" where
  "signed_inf positive = (if positive then PosInf else NegInf)"

fun fmul :: "float64 \<Rightarrow> float64 \<Rightarrow> float64" where
  "fmul NaN _ = NaN"
| "fmul _ NaN = NaN"
| "fmul (Num x) (Num y) = Num (x * y)"
| "fmul (Num x) PosInf = (if x = 0 then NaN else signed_inf (0 < x))"
| "fmul (Num x) NegInf = (if x = 0 then NaN else signed_inf (x < 0))"
| "fmul PosInf (Num y) = (if y = 0 then NaN else signed_inf (0 < y))"
| "fmul NegInf (Num y) = (if y = 0 then NaN else signed_inf (y < 0))"
| "fmul PosInf PosInf = PosInf"
| "fmul NegInf NegInf = PosInf"
| "fmul PosInf NegInf = NegInf"
| "fmul NegInf PosInf = NegInf"

text \<open>
  NumPy's float division does not raise: a finite number divided by zero is an infinity
  (with a warning), zero by zero is NaN.
\<close>

fun fdiv :: "float64 \<Rightarrow> float64 \<Rightarrow> float64" where
  "fdiv NaN _ = NaN"
| "fdiv _ NaN = NaN"
| "fdiv (Num x) (Num y) =
     (if y \<noteq> 0 then Num (x / y) else if x = 0 then NaN else signed_inf (0 < x))"
| "fdiv (Num x) PosInf = Num 0"
| "fdiv (Num x) NegInf = Num 0"
| "fdiv PosInf (Num y) = signed_inf (0 \<le> y)"
| "fdiv NegInf (Num y) = signed_inf (y < 0)"
| "fdiv PosInf PosInf = NaN"
| "fdiv NegInf NegInf = NaN"
| "fdiv PosInf NegInf = NaN"
| "fdiv NegInf PosInf = NaN"

fun fabs :: "float64 \<Rightarrow> float64" where
  "fabs (Num x) = Num \<bar>x\<bar>"
| "fabs PosInf = PosInf"
| "fabs NegInf = PosInf"
| "fabs NaN = NaN"

fun fceil :: "float64 \<Rightarrow> float64" where
  "fceil (Num x) = Num (of_int \<lceil>x\<rceil>)"
| "fceil x = x"

fun ffloor :: "float64 \<Rightarrow> float64" where
  "ffloor (Num x) = Num (of_int \<lfloor>x\<rfloor>)"
| "ffloor x = x"

text \<open>Comparisons: every comparison with NaN is false.\<close>

fun flt :: "float64 \<Rightarrow> float64 \<Rightarrow> bool" where
  "flt NaN _ = False"
| "flt _ NaN = False"
| "flt (Num x) (Num y) = (x < y)"
| "flt (Num x) PosInf = True"
| "flt (Num x) NegInf = False"
| "flt PosInf _ = False"
| "flt NegInf PosInf = True"
| "flt NegInf (Num y) = True"
| "flt NegInf NegInf = False"

fun feq :: "float64 \<Rightarrow> float64 \<Rightarrow> bool" where
  "feq NaN _ = False"
| "feq _ NaN = False"
| "feq x y = (x = y)"

text \<open>
  \<^verbatim>\<open>np.max\<close> and \<^verbatim>\<open>np.min\<close> propagate NaN and raise \<^verbatim>\<open>ValueError\<close> on an array of
  size zero.
\<close>

definition fmaximum :: "float64 \<Rightarrow> float64 \<Rightarrow> float64" where
  "fmaximum a b = (if isnan a \<or> isnan b then NaN else if flt a b then b else a)"

definition fminimum :: "float64 \<Rightarrow> float64 \<Rightarrow> float64" where
  "fminimum a b = (if isnan a \<or> isnan b then NaN else if flt b a then b else a)"

definition np_max :: "float64 list \<Rightarrow> error + float64" where
  "np_max xs = (case xs of [] \<Rightarrow> Inl ValueError | x # ys \<Rightarrow> Inr (fold fmaximum ys x))"

definition np_min :: "float64 list \<Rightarrow> error + float64" where
  "np_min xs = (case xs of [] \<Rightarrow> Inl ValueError | x # ys \<Rightarrow> Inr (fold fminimum ys x))"

text \<open>\<^verbatim>\<open>np.sum\<close> of a one-dimensional array; the sum of no element is zero.\<close>

definition np_sum :: "float64 list \<Rightarrow> float64" where
  "np_sum xs = fold (\<lambda>x acc. fadd acc x) xs (Num 0)"

text \<open>
  \<^verbatim>\<open>np.arange(start, stop, step)\<close> has \<open>\<lceil>(stop - start) / step\<rceil>\<close> elements, the
  \<open>i\<close>-th being \<open>start + i * step\<close>.
\<close>

definition np_arange :: "real \<Rightarrow> real \<Rightarrow> real \<Rightarrow> float64 list" where
  "np_arange start stop step =
     map (\<lambda>i. Num (start + real i * step)) [0 ..< nat \<lceil>(stop - start) / step\<rceil>]"

text \<open>
  \<^verbatim>\<open>np.where(cond)[0][0]\<close>: the index of the first true element, \<^verbatim>\<open>IndexError\<close> when
  there is none.
\<close>

fun first_where :: "bool list \<Rightarrow> error + nat" where
  "first_where [] = Inl IndexError"
| "first_where (b # bs) =
     (if b then Inr 0
      else case first_where bs of Inl e \<Rightarrow> Inl e | Inr i \<Rightarrow> Inr (Suc i))"

section \<open>The hydrograph object\<close>

text \<open>
  The attributes of \<^verbatim>\<open>Hydrograph\<close> that the scaling, binning, layout and tick methods
  read or write. \<^verbatim>\<open>meteo_on\<close> is the value of the property (a \<^verbatim>\<open>bool\<close>); the water
  level data set is \<^verbatim>\<open>None\<close> until one is loaded.
\<close>

record wldataset =
  WL :: "float64 list"
  Elevation :: float64

record hydrograph =
  fwidth :: real
  fheight :: real
  NZGrid :: int
  va_ratio :: real
  language :: string
  WLmin :: float64
  WLscale :: float64
  TIMEmin :: real
  TIMEmax :: real
  isLegend :: int
  isGraphTitle :: int
  WLdatum :: int
  meteo_on :: bool
  datemode :: string
  date_labels_pattern :: int
  wldset :: "wldataset option"
  TIMEmeteo :: "float64 list"
  TMAX :: "float64 list"
  PTOT :: "float64 list"
  RAIN :: "float64 list"
  bTIME :: "float64 list"
  bTMAX :: "float64 list"
  bPTOT :: "float64 list"
  bRAIN :: "float64 list"
  bwidth_indx :: int
  bwidth :: int

section \<open>Best fit of the water level scale\<close>

text \<open>
  \<^verbatim>\<open>SCALE = np.hstack((np.arange(0.05, 0.30, 0.05), np.arange(0.3, 5.1, 0.1)))\<close>
\<close>

definition SCALE :: "float64 list" where
  "SCALE = np_arange 0.05 0.30 0.05 @ np_arange 0.3 5.1 0.1"

text \<open>
  The first lines of \<^verbatim>\<open>best_fit_waterlvl\<close>: the water levels, subtracted from the
  elevation when the datum is 1 (masl), without their NaNs.
\<close>

definition waterlvl_values :: "hydrograph \<Rightarrow> wldataset \<Rightarrow> float64 list" where
  "waterlvl_values self ds =
     (let WL0 = (if WLdatum self = 1 then map (fsub (Elevation ds)) (WL ds) else WL ds)
      in filter (\<lambda>x. \<not> isnan x) WL0)"

text \<open>
  \<^verbatim>\<open>best_fit_waterlvl\<close> returns \<^verbatim>\<open>(self.WLscale, self.WLmin)\<close> and has written both
  attributes; the object is returned with the result, as it is left when an exception
  is raised.
\<close>

definition best_fit_waterlvl :: "hydrograph \<Rightarrow> (error + float64 \<times> float64) \<times> hydrograph" where
  "best_fit_waterlvl self =
     (case wldset self of
        None \<Rightarrow> (Inl TypeError, self)
      | Some ds \<Rightarrow>
          let WL1 = waterlvl_values self ds in
          (case np_max WL1 of
             Inl e \<Rightarrow> (Inl e, self)
           | Inr mx \<Rightarrow>
          (case np_min WL1 of
             Inl e \<Rightarrow> (Inl e, self)
           | Inr mn \<Rightarrow>
               let dWL = fsub mx mn;
                   ygrid = NZGrid self - 5;
                   dSCALE = map (\<lambda>s. fabs (fsub s (fdiv dWL (Num (of_int ygrid))))) SCALE
               in
               (case np_min dSCALE of
                  Inl e \<Rightarrow> (Inl e, self)
                | Inr m \<Rightarrow>
               (case first_where (map (\<lambda>d. feq d m) dSCALE) of
                  Inl e \<Rightarrow> (Inl e, self)
                | Inr indx \<Rightarrow>
                    let self1 = self\<lparr>WLscale := SCALE ! indx\<rparr> in
                    if WLdatum self = 0 then
                      let N = fceil (fdiv mx (WLscale self1));
                          self2 = self1\<lparr>WLmin := fmul (WLscale self1) N\<rparr>
                      in (Inr (WLscale self2, WLmin self2), self2)
                    else if WLdatum self = 1 then
                      let N = ffloor (fdiv mn (WLscale self1));
                          self2 = self1\<lparr>WLmin := fmul (WLscale self1) N\<rparr>
                      in (Inr (WLscale self2, WLmin self2), self2)
                    else (Inl UnboundLocalError, self1))))))"

text \<open>
  The candidate steps as the specification lists them: 0.05 to 0.25 in steps of 0.05,
  then 0.3 to 5.0 in steps of 0.1.
\<close>

definition candidate_steps :: "real list" where
  "candidate_steps = map (\<lambda>k. real k / 20) [1 ..< 6] @ map (\<lambda>k. real k / 10) [3 ..< 51]"

text \<open>The attributes as \<^verbatim>\<open>__init__\<close> sets them (no data set loaded).\<close>

definition Hydrograph_init :: hydrograph where
  "Hydrograph_init =
     \<lparr>fwidth = 11, fheight = 7, NZGrid = 8, va_ratio = 0.2, language = ''english'',
      WLmin = Num 0, WLscale = Num 0, TIMEmin = 36526, TIMEmax = 36526,
      isLegend = 1, isGraphTitle = 1, WLdatum = 0, meteo_on = False,
      datemode = ''Month'', date_labels_pattern = 2, wldset = None,
      TIMEmeteo = [], TMAX = [], PTOT = [], RAIN = [],
      bTIME = [], bTMAX = [], bPTOT = [], bRAIN = [], bwidth_indx = 1, bwidth = 0\<rparr>"

definition example_levels :: hydrograph where
  "example_levels =
     Hydrograph_init\<lparr>wldset := Some \<lparr>WL = [Num 0, NaN, Num 10, Num 4], Elevation = Num 100\<rparr>\<rparr>"

definition example_masl :: hydrograph where
  "example_masl =
     Hydrograph_init\<lparr>WLdatum := 1,
       wldset := Some \<lparr>WL = [Num 2, NaN, Num 7], Elevation = Num 100\<rparr>\<rparr>"

definition example_missing :: hydrograph where
  "example_missing =
     Hydrograph_init\<lparr>wldset := Some \<lparr>WL = [NaN, NaN], Elevation = Num 100\<rparr>\<rparr>"

definition example_deep :: hydrograph where
  "example_deep =
     Hydrograph_init\<lparr>wldset := Some \<lparr>WL = [Num 0, Num 100], Elevation = Num 100\<rparr>\<rparr>"

text \<open>
  The limits \<^verbatim>\<open>(ymin, ymax)\<close> that \<^verbatim>\<open>setup_waterlvl_scale\<close> gives to the water level axis
  from the fitted scale: \<^verbatim>\<open>NZGrid\<close> steps from \<^verbatim>\<open>WLmin\<close> with the weather panel, two
  steps less without it; upwards when the datum is 1, downwards otherwise.
\<close>

definition setup_waterlvl_scale :: "hydrograph \<Rightarrow> float64 \<times> float64" where
  "setup_waterlvl_scale self =
     (let NZGrid' = (if meteo_on self then NZGrid self else NZGrid self - 2) in
      if WLdatum self = 1 then
        (WLmin self, fadd (WLmin self) (fmul (Num (of_int NZGrid')) (WLscale self)))
      else
        (fsub (WLmin self) (fmul (Num (of_int NZGrid')) (WLscale self)), WLmin self))"

definition example_refit :: hydrograph where
  "example_refit =
     Hydrograph_init\<lparr>wldset := Some \<lparr>WL = [Num 0, Num 10], Elevation = Num 100\<rparr>\<rparr>"

section \<open>Binning of the weather series\<close>

text \<open>
  \<^verbatim>\<open>xs[i]\<close> for a Python list and an integer: positions \<open>0\<close> to \<open>len - 1\<close> from the
  front, \<open>-1\<close> down to \<open>-len\<close> from the back, \<^verbatim>\<open>IndexError\<close> for any other integer.
\<close>

definition py_index :: "'a list \<Rightarrow> int \<Rightarrow> error + 'a" where
  "py_index xs i =
     (if 0 \<le> i \<and> i < int (length xs) then Inr (xs ! nat i)
      else if - int (length xs) \<le> i \<and> i < 0 then Inr (xs ! nat (int (length xs) + i))
      else Inl IndexError)"

text \<open>
  \<^verbatim>\<open>x.reshape(nbin, bwidth)\<close> of a one-dimensional array, in row-major order: element
  \<open>j\<close> of row \<open>k\<close> is element \<open>k * bwidth + j\<close> of \<open>x\<close>. NumPy raises \<^verbatim>\<open>ValueError\<close>
  when the sizes do not agree.
\<close>

definition np_reshape :: "'a list \<Rightarrow> nat \<Rightarrow> nat \<Rightarrow> error + 'a list list" where
  "np_reshape x nbin bwidth' =
     (if length x \<noteq> nbin * bwidth' then Inl ValueError
      else Inr (map (\<lambda>k. map (\<lambda>j. x ! (k * bwidth' + j)) [0 ..< bwidth']) [0 ..< nbin]))"

text \<open>
  \<^verbatim>\<open>bin_sum(x, bwidth)\<close>: \<^verbatim>\<open>len(x) / bwidth\<close> raises \<^verbatim>\<open>ZeroDivisionError\<close> for a width of
  zero; a negative width gives a negative dimension, which \<^verbatim>\<open>reshape\<close> refuses.
\<close>

definition bin_sum :: "float64 list \<Rightarrow> int \<Rightarrow> error + float64 list" where
  "bin_sum x bwidth' =
     (if bwidth' = 0 then Inl ZeroDivisionError
      else if bwidth' < 0 then Inl ValueError
      else
        let nbin = nat \<lfloor>real (length x) / real_of_int bwidth'\<rfloor> in
        case np_reshape (take (nbin * nat bwidth') x) nbin (nat bwidth') of
          Inl e \<Rightarrow> Inl e
        | Inr bheight \<Rightarrow> Inr (map np_sum bheight))"

text \<open>
  \<^verbatim>\<open>resample_bin\<close> writes \<^verbatim>\<open>bwidth\<close> and the four binned series and returns nothing.
\<close>

definition resample_bin :: "hydrograph \<Rightarrow> (error + unit) \<times> hydrograph" where
  "resample_bin self =
     (case py_index [1, 7, 30, 365] (bwidth_indx self) of
        Inl e \<Rightarrow> (Inl e, self)
      | Inr w \<Rightarrow>
          let self0 = self\<lparr>bwidth := w\<rparr> in
          if bwidth_indx self0 = 0 then
            (Inr (), self0\<lparr>bTIME := TIMEmeteo self0, bTMAX := TMAX self0,
                           bPTOT := PTOT self0, bRAIN := RAIN self0\<rparr>)
          else
            (case bin_sum (TIMEmeteo self0) w of
               Inl e \<Rightarrow> (Inl e, self0)
             | Inr t \<Rightarrow>
                 let self1 = self0\<lparr>bTIME := map (\<lambda>v. fdiv v (Num (of_int w))) t\<rparr> in
                 (case bin_sum (TMAX self1) w of
                    Inl e \<Rightarrow> (Inl e, self1)
                  | Inr m \<Rightarrow>
                      let self2 = self1\<lparr>bTMAX := map (\<lambda>v. fdiv v (Num (of_int w))) m\<rparr> in
                      (case bin_sum (PTOT self2) w of
                         Inl e \<Rightarrow> (Inl e, self2)
                       | Inr p \<Rightarrow>
                           let self3 = self2\<lparr>bPTOT := p\<rparr> in
                           (case bin_sum (RAIN self3) w of
                              Inl e \<Rightarrow> (Inl e, self3)
                            | Inr r \<Rightarrow> (Inr (), self3\<lparr>bRAIN := r\<rparr>))))))"

text \<open>
  What the specification asks of a binned series \<open>ys\<close> of \<open>xs\<close>: one value for each
  complete window of \<open>w\<close> consecutive samples, window \<open>k\<close> being the samples \<open>k * w\<close> to
  \<open>k * w + w - 1\<close>; the value is the sum of the window, divided by \<open>w\<close> for a mean.
\<close>

definition window :: "nat \<Rightarrow> nat \<Rightarrow> 'a list \<Rightarrow> 'a list" where
  "window w k xs = take w (drop (k * w) xs)"

definition binned :: "nat \<Rightarrow> bool \<Rightarrow> float64 list \<Rightarrow> float64 list \<Rightarrow> bool" where
  "binned w mean xs ys \<longleftrightarrow>
     length ys = length xs div w \<and>
     (\<forall>k<length ys.
        ys ! k = (if mean then fdiv (np_sum (window w k xs)) (Num (real w))
                  else np_sum (window w k xs)))"

definition example_weather :: hydrograph where
  "example_weather =
     Hydrograph_init\<lparr>bwidth_indx := 1,
       TIMEmeteo := map (\<lambda>d. Num (36526 + real d)) [0 ..< 16],
       TMAX := map (\<lambda>d. Num (real d)) [0 ..< 16],
       PTOT := map (\<lambda>d. Num 1) [0 ..< 16],
       RAIN := []\<rparr>"

section \<open>Margins of the axes\<close>

text \<open>
  The local variables of \<^verbatim>\<open>set_margins\<close>, as fractions of the figure's width and height:
  \<^verbatim>\<open>(left_margin, right_margin, bottom_margin, top_margin, htot, htop, hlow, wtot)\<close>. A
  Python division by zero raises.
\<close>

definition margins ::
  "hydrograph \<Rightarrow> error + (real \<times> real \<times> real \<times> real \<times> real \<times> real \<times> real \<times> real)" where
  "margins self =
     (if fwidth self = 0 \<or> fheight self = 0 then Inl ZeroDivisionError
      else
        let left_margin = 0.85 / fwidth self;
            right_margin = (if \<not> meteo_on self then 0.15 / fwidth self else 0.85 / fwidth self);
            bottom_margin = 0.6 / fheight self;
            top_margin0 = 0.25 / fheight self;
            top_margin =
              (if isGraphTitle self = 1 \<or> isLegend self = 1 then
                 (if \<not> meteo_on self then top_margin0 + 0.2 / fheight self
                  else top_margin0 + 0.45 / fheight self)
               else top_margin0);
            va = (if meteo_on self then va_ratio self else 0);
            htot = 1 - (bottom_margin + top_margin);
            htop = htot * va;
            hlow = htot * (1 - va);
            wtot = 1 - (left_margin + right_margin)
        in Inr (left_margin, right_margin, bottom_margin, top_margin, htot, htop, hlow, wtot))"

text \<open>
  \<^verbatim>\<open>set_margins\<close> gives each axes of the figure its position
  \<^verbatim>\<open>[left, bottom, width, height]\<close>; the model returns the positions in the order of
  \<^verbatim>\<open>self.axes\<close>, of which there are \<open>n\<close>.
\<close>

definition set_margins :: "hydrograph \<Rightarrow> nat \<Rightarrow> error + (real \<times> real \<times> real \<times> real) list" where
  "set_margins self n =
     (case margins self of
        Inl e \<Rightarrow> Inl e
      | Inr (left_margin, right_margin, bottom_margin, top_margin, htot, htop, hlow, wtot) \<Rightarrow>
          Inr (map (\<lambda>i. if i = 4 then (left_margin, bottom_margin + hlow, wtot, htop)
                         else if i \<in> {0, 1} then (left_margin, bottom_margin, wtot, htot)
                         else (left_margin, bottom_margin, wtot, hlow)) [0 ..< n]))"

section \<open>Calendar functions of the libraries\<close>

text \<open>
  The time axis is in Excel serial days. The hydrograph converts them with
  \<^verbatim>\<open>xldate_as_tuple\<close> and \<^verbatim>\<open>xldate_from_date_tuple\<close> of the \<^verbatim>\<open>xlrd\<close> package and takes the
  length of a month from \<^verbatim>\<open>calendar.monthrange\<close> of the standard library. Both are
  outside the repository; they are modelled here after the libraries' algorithms, with
  their exceptions. A serial day is a finite float, modelled as a real.
\<close>

text \<open>Python's \<^verbatim>\<open>round\<close> of a float to an integer: the nearest one, a tie to the even one.\<close>

definition py_round :: "real \<Rightarrow> int" where
  "py_round x =
     (let f = \<lfloor>x\<rfloor>; d = x - of_int f
      in if d < 1/2 then f else if 1/2 < d then f + 1 else if even f then f else f + 1)"

text \<open>\<^verbatim>\<open>_JDN_delta\<close> and \<^verbatim>\<open>_XLDAYS_TOO_LARGE\<close>, indexed by the date mode (0: 1900-based).\<close>

definition JDN_delta :: "int \<Rightarrow> int" where
  "JDN_delta datemode' = (if datemode' = 0 then 2415080 - 61 else 2416482 - 1)"

definition XLDAYS_TOO_LARGE :: "int \<Rightarrow> int" where
  "XLDAYS_TOO_LARGE datemode' = (if datemode' = 0 then 2958466 else 2958466 - 1462)"

definition xldate_as_tuple :: "real \<Rightarrow> int \<Rightarrow> error + (int \<times> int \<times> int \<times> int \<times> int \<times> int)" where
  "xldate_as_tuple xldate datemode' =
     (if datemode' \<noteq> 0 \<and> datemode' \<noteq> 1 then Inl XLDateBadDatemode
      else if xldate = 0 then Inr (0, 0, 0, 0, 0, 0)
      else if xldate < 0 then Inl XLDateNegative
      else
        let xldays0 = \<lfloor>xldate\<rfloor>;
            frac = xldate - of_int xldays0;
            seconds = py_round (frac * 86400);
            hour = (if seconds = 86400 then 0 else (seconds div 60) div 60);
            minute = (if seconds = 86400 then 0 else (seconds div 60) mod 60);
            second = (if seconds = 86400 then 0 else seconds mod 60);
            xldays = (if seconds = 86400 then xldays0 + 1 else xldays0)
        in
        if XLDAYS_TOO_LARGE datemode' \<le> xldays then Inl XLDateTooLarge
        else if xldays = 0 then Inr (0, 0, 0, hour, minute, second)
        else if xldays < 61 \<and> datemode' = 0 then Inl XLDateAmbiguous
        else
          let jdn = xldays + JDN_delta datemode';
              yreg = ((((jdn * 4 + 274277) div 146097) * 3 div 4) + jdn + 1363) * 4 + 3;
              mp = ((yreg mod 1461) div 4) * 535 + 333;
              d = ((mp mod 16384) div 535) + 1;
              mp' = mp div 16384
          in
          if 10 \<le> mp' then Inr ((yreg div 1461) - 4715, mp' - 9, d, hour, minute, second)
          else Inr ((yreg div 1461) - 4716, mp' + 3, d, hour, minute, second))"

definition xl_leap :: "int \<Rightarrow> bool" where
  "xl_leap y =
     (if y mod 4 \<noteq> 0 then False else if y mod 100 \<noteq> 0 then True
      else if y mod 400 \<noteq> 0 then False else True)"

definition days_in_month :: "int list" where
  "days_in_month = [31, 28, 31, 30, 31, 30, 31, 31, 30, 31, 30, 31]"

definition xldate_from_date_tuple :: "int \<times> int \<times> int \<Rightarrow> int \<Rightarrow> error + real" where
  "xldate_from_date_tuple date_tuple datemode' =
     (case date_tuple of (year, month, day) \<Rightarrow>
      if datemode' \<noteq> 0 \<and> datemode' \<noteq> 1 then Inl XLDateBadDatemode
      else if year = 0 \<and> month = 0 \<and> day = 0 then Inr 0
      else if \<not> (1900 \<le> year \<and> year \<le> 9999) then Inl XLDateBadTuple
      else if \<not> (1 \<le> month \<and> month \<le> 12) then Inl XLDateBadTuple
      else if day < 1 \<or>
              (days_in_month ! nat (month - 1) < day \<and>
               \<not> (day = 29 \<and> month = 2 \<and> xl_leap year)) then Inl XLDateBadTuple
      else
        let Yp = (if month \<le> 2 then year + 4716 - 1 else year + 4716);
            Mp = (if month \<le> 2 then month + 9 else month - 3);
            jdn = (1461 * Yp) div 4 + (979 * Mp + 16) div 32 + day - 1364
                  - (((Yp + 184) div 100) * 3) div 4;
            xldays = jdn - JDN_delta datemode'
        in
        if xldays \<le> 0 then Inl XLDateBadTuple
        else if xldays < 61 \<and> datemode' = 0 then Inl XLDateAmbiguous
        else Inr (of_int xldays))"

text \<open>
  \<^verbatim>\<open>calendar.monthrange(year, month)[1]\<close>, the number of days of the month; the weekday
  that \<^verbatim>\<open>monthrange\<close> also returns is not used by the hydrograph.
\<close>

definition isleap :: "int \<Rightarrow> bool" where
  "isleap year \<longleftrightarrow> year mod 4 = 0 \<and> (year mod 100 \<noteq> 0 \<or> year mod 400 = 0)"

definition monthrange_days :: "int \<Rightarrow> int \<Rightarrow> error + int" where
  "monthrange_days year month =
     (if \<not> (1 \<le> month \<and> month \<le> 12) then Inl IllegalMonthError
      else Inr (days_in_month ! nat (month - 1) + (if month = 2 \<and> isleap year then 1 else 0)))"

section \<open>Best fit of the time axis\<close>

text \<open>
  \<^verbatim>\<open>best_fit_time(TIME)\<close> returns the two date tuples and has written \<^verbatim>\<open>TIMEmin\<close> and
  \<^verbatim>\<open>TIMEmax\<close>.
\<close>

definition best_fit_time ::
  "hydrograph \<Rightarrow> real list \<Rightarrow> (error + (int \<times> int \<times> int) \<times> (int \<times> int \<times> int)) \<times> hydrograph" where
  "best_fit_time self TIME =
     (case py_index TIME 0 of
        Inl e \<Rightarrow> (Inl e, self)
      | Inr t0 \<Rightarrow>
     (case xldate_as_tuple t0 0 of
        Inl e \<Rightarrow> (Inl e, self)
      | Inr (year0, month0, rest0) \<Rightarrow>
          let date0 = (year0, month0, 1) in
     (case xldate_from_date_tuple date0 0 of
        Inl e \<Rightarrow> (Inl e, self)
      | Inr tmin \<Rightarrow>
          let self1 = self\<lparr>TIMEmin := tmin\<rparr> in
     (case py_index TIME (- 1) of
        Inl e \<Rightarrow> (Inl e, self1)
      | Inr t1 \<Rightarrow>
     (case xldate_as_tuple t1 0 of
        Inl e \<Rightarrow> (Inl e, self1)
      | Inr (year1, month1, rest1) \<Rightarrow>
          let month = month1 + 1;
              date1 = (if 12 < month then (year1 + 1, 1, 1) else (year1, month, 1))
          in
     (case xldate_from_date_tuple date1 0 of
        Inl e \<Rightarrow> (Inl e, self1)
      | Inr tmax \<Rightarrow> (Inr (date0, date1), self1\<lparr>TIMEmax := tmax\<rparr>)))))))"

text \<open>
  The terms of the two conversions, named for the proofs: the intermediate \<^verbatim>\<open>yreg\<close> of
  \<^verbatim>\<open>xldate_as_tuple\<close> for a Julian day number, the year and the day of the year that start
  in March, the month counted from March, and the date they give; the whole days and the time of day that
  \<^verbatim>\<open>xldate_as_tuple\<close> takes from a serial day; the Julian day number that
  \<^verbatim>\<open>xldate_from_date_tuple\<close> gives to the first day of a month counted from March.
\<close>

definition yreg_of :: "int \<Rightarrow> int" where
  "yreg_of jdn = ((((jdn * 4 + 274277) div 146097) * 3 div 4) + jdn + 1363) * 4 + 3"

definition march_year :: "int \<Rightarrow> int" where
  "march_year jdn = yreg_of jdn div 1461"

definition march_day :: "int \<Rightarrow> int" where
  "march_day jdn = (yreg_of jdn mod 1461) div 4"

definition march_month :: "int \<Rightarrow> int" where
  "march_month jdn = (march_day jdn * 535 + 333) div 16384"

definition civil_year :: "int \<Rightarrow> int" where
  "civil_year jdn = (if 10 \<le> march_month jdn then march_year jdn - 4715 else march_year jdn - 4716)"

definition civil_month :: "int \<Rightarrow> int" where
  "civil_month jdn = (if 10 \<le> march_month jdn then march_month jdn - 9 else march_month jdn + 3)"

definition civil_day :: "int \<Rightarrow> int" where
  "civil_day jdn = ((march_day jdn * 535 + 333) mod 16384) div 535 + 1"

definition xldays_of :: "real \<Rightarrow> int" where
  "xldays_of xldate =
     (if py_round ((xldate - of_int \<lfloor>xldate\<rfloor>) * 86400) = 86400 then \<lfloor>xldate\<rfloor> + 1
      else \<lfloor>xldate\<rfloor>)"

definition xl_seconds :: "real \<Rightarrow> int" where
  "xl_seconds xldate = py_round ((xldate - of_int \<lfloor>xldate\<rfloor>) * 86400)"

definition xl_time :: "real \<Rightarrow> int \<times> int \<times> int" where
  "xl_time xldate =
     (if xl_seconds xldate = 86400 then (0, 0, 0)
      else ((xl_seconds xldate div 60) div 60, (xl_seconds xldate div 60) mod 60,
            xl_seconds xldate mod 60))"

definition month_offset :: "int \<Rightarrow> int" where
  "month_offset Mp = (979 * Mp + 16) div 32"

definition month_start :: "int \<Rightarrow> int \<Rightarrow> int" where
  "month_start Yp Mp =
     (1461 * Yp) div 4 + month_offset Mp + 1 - 1364 - (((Yp + 184) div 100) * 3) div 4"

text \<open>The month after a month, as \<^verbatim>\<open>best_fit_time\<close> computes it.\<close>

definition month_after :: "int \<Rightarrow> int \<Rightarrow> int \<times> int \<times> int" where
  "month_after year month = (if 12 < month + 1 then (year + 1, 1, 1) else (year, month + 1, 1))"

text \<open>The month after the month of a day, counted from March.\<close>

definition march_after :: "int \<Rightarrow> int \<times> int" where
  "march_after j =
     (if march_month j = 11 then (march_year j + 1, 0) else (march_year j, march_month j + 1))"

section \<open>Ticks and labels of the time axis\<close>

text \<open>
  Strings are lists of 8-bit characters, read as the code points below 256: the month
  names of \<^verbatim>\<open>LabelDatabase\<close> have no other. \<^verbatim>\<open>str.lower\<close> on these code points moves the
  capital letters of ASCII and of Latin-1 to their small letters.
\<close>

definition lower_char :: "char \<Rightarrow> char" where
  "lower_char c =
     (let n = (of_char c :: nat)
      in if (65 \<le> n \<and> n \<le> 90) \<or> (192 \<le> n \<and> n \<le> 222 \<and> n \<noteq> 215)
         then char_of (n + 32) else c)"

definition lower :: "string \<Rightarrow> string" where
  "lower s = map lower_char s"

text \<open>\<^verbatim>\<open>str(n)\<close> and \<^verbatim>\<open>"%d" % n\<close> for an integer: its decimal digits, after a minus sign if negative.\<close>

definition digit_char :: "nat \<Rightarrow> char" where
  "digit_char d = char_of (48 + d)"

fun str_nat :: "nat \<Rightarrow> string" where
  "str_nat n = (if n < 10 then [digit_char n] else str_nat (n div 10) @ [digit_char (n mod 10)])"

declare str_nat.simps [simp del]

definition py_str :: "int \<Rightarrow> string" where
  "py_str n = (if n < 0 then CHR ''-'' # str_nat (nat (- n)) else str_nat (nat n))"

text \<open>\<^verbatim>\<open>s[-2:]\<close>: the last two characters, or all of a shorter string.\<close>

definition last_two :: "string \<Rightarrow> string" where
  "last_two s = drop (length s - 2) s"

text \<open>
  \<^verbatim>\<open>LabelDatabase(language).month_names\<close>; the accented capitals of the French names are
  the code points 201 and 219.
\<close>

definition month_names :: "string \<Rightarrow> string list" where
  "month_names language' =
     (if lower language' = ''french'' then
        [''JAN'', [CHR ''F'', CHR 0xC9, CHR ''V''], ''MAR'', ''AVR'', ''MAI'', ''JUN'',
         ''JUL'', [CHR ''A'', CHR ''O'', CHR 0xDB], ''SEP'', ''OCT'', ''NOV'',
         [CHR ''D'', CHR 0xC9, CHR ''C'']]
      else
        [''JAN'', ''FEB'', ''MAR'', ''APR'', ''MAY'', ''JUN'',
         ''JUL'', ''AUG'', ''SEP'', ''OCT'', ''NOV'', ''DEC''])"

text \<open>
  The offset of the labels: the height of the bounding box of a sample text, measured by
  the renderer in axes coordinates, times \<open>sin 45\<degree>\<close>, scaled by the height to width ratio
  of the axes (in inches) and by \<^verbatim>\<open>TIMEmax - TIMEmin + 1\<close>. The three measures are NumPy
  floats given by the renderer.
\<close>

definition np_radians :: "real \<Rightarrow> real" where
  "np_radians deg = deg * pi / 180"

definition xticks_labels_offset :: "hydrograph \<Rightarrow> float64 \<Rightarrow> float64 \<Rightarrow> float64 \<Rightarrow> float64" where
  "xticks_labels_offset self text_height axes_height axes_width =
     (let dx = fmul text_height (Num (sin (np_radians 45)));
          sdx = fdiv (fmul dx axes_height) axes_width
      in fmul sdx (Num (TIMEmax self - TIMEmin self + 1)))"

text \<open>
  The label of a major tick: \<^verbatim>\<open>"{} '{}".format(month_names[month - 1], str(year)[-2:])\<close>
  in month mode, \<^verbatim>\<open>"%d" % year\<close> in year mode, none in any other mode.
\<close>

definition tick_label :: "hydrograph \<Rightarrow> int \<Rightarrow> int \<Rightarrow> error + string option" where
  "tick_label self year month =
     (if lower (datemode self) = ''month'' then
        (case py_index (month_names (language self)) (month - 1) of
           Inl e \<Rightarrow> Inl e
         | Inr name \<Rightarrow> Inr (Some (name @ '' '' @ [CHR 0x27] @ last_two (py_str year))))
      else if lower (datemode self) = ''year'' then Inr (Some (py_str year))
      else Inr None)"

text \<open>
  The position after \<^verbatim>\<open>next_xtick_pos\<close>: the length of its month later in month mode,
  the first of January of the next year in year mode, the same position in any other
  mode.
\<close>

definition next_position :: "hydrograph \<Rightarrow> real \<Rightarrow> int \<Rightarrow> int \<Rightarrow> error + real" where
  "next_position self next_xtick_pos year month_range =
     (if lower (datemode self) = ''month'' then Inr (next_xtick_pos + of_int month_range)
      else if lower (datemode self) = ''year'' then xldate_from_date_tuple (year + 1, 1, 1) 0
      else Inr next_xtick_pos)"

type_synonym xticks_info = "real list \<times> float64 list \<times> string list \<times> real list"

text \<open>
  One pass of the body of the \<^verbatim>\<open>while True\<close> loop up to the test that leaves it: the four
  lists \<^verbatim>\<open>(xticks_position, xticks_labels_position, xticks_labels,
  xticks_minor_position)\<close> with the tick of this pass, and the next position.
\<close>

definition xticks_pass ::
  "hydrograph \<Rightarrow> float64 \<Rightarrow> int \<Rightarrow> real \<Rightarrow> xticks_info \<Rightarrow> error + (xticks_info \<times> real)" where
  "xticks_pass self offset i next_xtick_pos ticks =
     (case ticks of (xticks_position, xticks_labels_position, xticks_labels, xticks_minor_position) \<Rightarrow>
      case xldate_as_tuple next_xtick_pos 0 of
        Inl e \<Rightarrow> Inl e
      | Inr (year, month, rest) \<Rightarrow>
      case monthrange_days year month of
        Inl e \<Rightarrow> Inl e
      | Inr month_range \<Rightarrow>
          if date_labels_pattern self = 0 then Inl ZeroDivisionError
          else
            case (if i mod date_labels_pattern self = 0 then
                    (case tick_label self year month of
                       Inl e \<Rightarrow> Inl e
                     | Inr label \<Rightarrow>
                         Inr (xticks_position @ [next_xtick_pos],
                              xticks_labels_position @ [fadd (Num next_xtick_pos) offset],
                              (case label of None \<Rightarrow> xticks_labels
                               | Some l \<Rightarrow> xticks_labels @ [l])))
                  else Inr (xticks_position, xticks_labels_position, xticks_labels)) of
              Inl e \<Rightarrow> Inl e
            | Inr (xticks_position', xticks_labels_position', xticks_labels') \<Rightarrow>
              case next_position self next_xtick_pos year month_range of
                Inl e \<Rightarrow> Inl e
              | Inr pos' \<Rightarrow>
                  Inr ((xticks_position', xticks_labels_position', xticks_labels',
                        xticks_minor_position @ [next_xtick_pos]), pos'))"

text \<open>
  The loop: it is left when the next position is after \<^verbatim>\<open>TIMEmax\<close>. Nothing bounds the
  number of passes in the code, so the result is an option: \<open>None\<close> for a loop that never
  ends.
\<close>

partial_function (option) xticks_loop ::
  "hydrograph \<Rightarrow> float64 \<Rightarrow> int \<Rightarrow> real \<Rightarrow> xticks_info \<Rightarrow> (error + xticks_info) option" where
  "xticks_loop self offset i next_xtick_pos ticks =
     (case xticks_pass self offset i next_xtick_pos ticks of
        Inl e \<Rightarrow> Some (Inl e)
      | Inr (ticks', pos') \<Rightarrow>
          if TIMEmax self < pos' then Some (Inr ticks')
          else xticks_loop self offset (i + 1) pos' ticks')"

declare xticks_loop.simps [code]

definition make_xticks_info ::
  "hydrograph \<Rightarrow> float64 \<Rightarrow> float64 \<Rightarrow> float64 \<Rightarrow> (error + xticks_info) option" where
  "make_xticks_info self text_height axes_height axes_width =
     xticks_loop self (xticks_labels_offset self text_height axes_height axes_width)
       0 (TIMEmin self) ([], [], [], [])"

text \<open>
  What one pass of the loop computes from a position alone: the position after it, and
  the label that a major tick has there.
\<close>

definition next_xtick :: "hydrograph \<Rightarrow> real \<Rightarrow> error + real" where
  "next_xtick self pos =
     (case xldate_as_tuple pos 0 of
        Inl e \<Rightarrow> Inl e
      | Inr (year, month, rest) \<Rightarrow>
      case monthrange_days year month of
        Inl e \<Rightarrow> Inl e
      | Inr month_range \<Rightarrow> next_position self pos year month_range)"

definition xtick_label :: "hydrograph \<Rightarrow> real \<Rightarrow> error + string option" where
  "xtick_label self pos =
     (case xldate_as_tuple pos 0 of
        Inl e \<Rightarrow> Inl e
      | Inr (year, month, rest) \<Rightarrow> tick_label self year month)"

definition major_label :: "hydrograph \<Rightarrow> real \<Rightarrow> string" where
  "major_label self pos = (case xtick_label self pos of Inr (Some l) \<Rightarrow> l | _ \<Rightarrow> [])"

text \<open>
  The four lists after the loop has passed the positions \<open>ps\<close> in turn, the first of
  them with the counter at \<open>i\<close>.
\<close>

fun collect_ticks :: "hydrograph \<Rightarrow> float64 \<Rightarrow> int \<Rightarrow> real list \<Rightarrow> xticks_info \<Rightarrow> xticks_info" where
  "collect_ticks self offset i [] ticks = ticks"
| "collect_ticks self offset i (p # ps) (xt, xlp, xl, xm) =
     collect_ticks self offset (i + 1) ps
       (if i mod date_labels_pattern self = 0
        then (xt @ [p], xlp @ [fadd (Num p) offset], xl @ [major_label self p], xm @ [p])
        else (xt, xlp, xl, xm @ [p]))"

text \<open>The two-digit and the four-digit year of the specification's labels.\<close>

definition two_digits :: "int \<Rightarrow> string" where
  "two_digits n = [digit_char (nat (n div 10 mod 10)), digit_char (nat (n mod 10))]"

definition four_digits :: "int \<Rightarrow> string" where
  "four_digits n =
     [digit_char (nat (n div 1000 mod 10)), digit_char (nat (n div 100 mod 10)),
      digit_char (nat (n div 10 mod 10)), digit_char (nat (n mod 10))]"

definition example_ticks :: hydrograph where
  "example_ticks =
     Hydrograph_init\<lparr>datemode := ''year'', TIMEmin := 36526, TIMEmax := 37692\<rparr>"

section \<open>Properties of the water level fit\<close>

lemma arange_small: "np_arange 0.05 0.30 0.05 = map (\<lambda>k. Num (real k / 20)) [1 ..< 6]"
proof -
  have n: "nat \<lceil>((0.30::real) - 0.05) / 0.05\<rceil> = 5" by simp
  have "[1 ..< 6] = map Suc [0 ..< 5]" by (simp add: map_Suc_upt)
  then show ?thesis
    unfolding np_arange_def n by (simp add: field_simps)
qed

lemma arange_large: "np_arange 0.3 5.1 0.1 = map (\<lambda>k. Num (real k / 10)) [3 ..< 51]"
proof -
  have n: "nat \<lceil>((5.1::real) - 0.3) / 0.1\<rceil> = 48" by simp
  have "[3 ..< 51] = map (\<lambda>i. i + 3) [0 ..< 48]"
    using map_add_upt [of 3 48] by simp
  then show ?thesis
    unfolding np_arange_def n by (simp add: field_simps)
qed

lemma SCALE_candidates: "SCALE = map Num candidate_steps"
  by (simp only: SCALE_def arange_small arange_large candidate_steps_def map_append map_map o_def)

lemma length_candidates: "length candidate_steps = 53"
  by (simp add: candidate_steps_def)

lemma candidates_bounds: "c \<in> set candidate_steps \<Longrightarrow> 0.05 \<le> c \<and> c \<le> 5"
  by (auto simp: candidate_steps_def)

lemma candidates_sorted: "sorted candidate_steps"
  by (auto simp: candidate_steps_def sorted_append sorted_map intro!: sorted_wrt_mono_rel[of _ "(\<le>)"] simp: divide_right_mono)

lemma fold_fminimum_Num: "fold fminimum (map Num ys) (Num x) = Num (fold min ys x)"
  by (induction ys arbitrary: x) (auto simp: fminimum_def min_def)

lemma fold_fmaximum_Num: "fold fmaximum (map Num ys) (Num x) = Num (fold max ys x)"
  by (induction ys arbitrary: x) (auto simp: fmaximum_def max_def)

lemma np_min_Num: "rs \<noteq> [] \<Longrightarrow> np_min (map Num rs) = Inr (Num (Min (set rs)))"
  by (cases rs) (simp_all add: np_min_def fold_fminimum_Num Min.set_eq_fold [symmetric])

lemma np_max_Num: "rs \<noteq> [] \<Longrightarrow> np_max (map Num rs) = Inr (Num (Max (set rs)))"
  by (cases rs) (simp_all add: np_max_def fold_fmaximum_Num Max.set_eq_fold [symmetric])

lemma first_where_Num:
  "m \<in> set rs \<Longrightarrow>
   \<exists>i. first_where (map (\<lambda>d. feq d (Num m)) (map Num rs)) = Inr i \<and>
       i < length rs \<and> rs ! i = m \<and> (\<forall>j<i. rs ! j \<noteq> m)"
proof (induction rs)
  case Nil
  then show ?case by simp
next
  case (Cons r rs)
  show ?case
  proof (cases "r = m")
    case True
    then show ?thesis by simp
  next
    case False
    with Cons.prems have "m \<in> set rs" by simp
    then obtain i where i: "first_where (map (\<lambda>d. feq d (Num m)) (map Num rs)) = Inr i"
      "i < length rs" "rs ! i = m" "\<forall>j<i. rs ! j \<noteq> m"
      using Cons.IH by blast
    have "\<forall>j<Suc i. (r # rs) ! j \<noteq> m"
      using False i(4) by (auto simp: nth_Cons split: nat.splits)
    with False i show ?thesis by auto
  qed
qed

text \<open>The index of the first minimum of a non-empty list of finite numbers.\<close>

lemma first_minimum:
  assumes "rs \<noteq> []"
  shows "\<exists>i m. np_min (map Num rs) = Inr m \<and>
           first_where (map (\<lambda>d. feq d m) (map Num rs)) = Inr i \<and>
           i < length rs \<and> (\<forall>j<length rs. rs ! i \<le> rs ! j) \<and> (\<forall>j<i. rs ! j \<noteq> rs ! i)"
proof -
  let ?m = "Min (set rs)"
  have "?m \<in> set rs" using assms by (simp add: Min_in)
  then obtain i where i: "first_where (map (\<lambda>d. feq d (Num ?m)) (map Num rs)) = Inr i"
      "i < length rs" "rs ! i = ?m" "\<forall>j<i. rs ! j \<noteq> ?m"
    using first_where_Num by blast
  have "\<forall>j<length rs. rs ! i \<le> rs ! j" using i(3) by simp
  with i np_min_Num [OF assms] show ?thesis by auto
qed

lemma dSCALE_Num:
  assumes "g \<noteq> 0"
  shows "map (\<lambda>s. fabs (fsub s (fdiv (fsub (Num mx) (Num mn)) (Num (of_int g))))) SCALE =
         map Num (map (\<lambda>c. \<bar>c - (mx - mn) / of_int g\<bar>) candidate_steps)"
  using assms by (simp add: SCALE_candidates fsub_def o_def)

lemma best_fit_waterlvl_finite:
  assumes ds: "wldset self = Some ds"
    and vs: "waterlvl_values self ds = map Num rs"
    and ne: "rs \<noteq> []"
    and grid: "NZGrid self \<noteq> 5"
  shows "\<exists>i<length candidate_steps.
           (\<forall>j<length candidate_steps.
              \<bar>candidate_steps ! i - (Max (set rs) - Min (set rs)) / of_int (NZGrid self - 5)\<bar>
              \<le> \<bar>candidate_steps ! j - (Max (set rs) - Min (set rs)) / of_int (NZGrid self - 5)\<bar>) \<and>
           (\<forall>j<i.
              \<bar>candidate_steps ! j - (Max (set rs) - Min (set rs)) / of_int (NZGrid self - 5)\<bar>
              \<noteq> \<bar>candidate_steps ! i - (Max (set rs) - Min (set rs)) / of_int (NZGrid self - 5)\<bar>) \<and>
           best_fit_waterlvl self =
             (let s = candidate_steps ! i in
              if WLdatum self = 0 then
                (Inr (Num s, Num (s * of_int \<lceil>Max (set rs) / s\<rceil>)),
                 self\<lparr>WLscale := Num s, WLmin := Num (s * of_int \<lceil>Max (set rs) / s\<rceil>)\<rparr>)
              else if WLdatum self = 1 then
                (Inr (Num s, Num (s * of_int \<lfloor>Min (set rs) / s\<rfloor>)),
                 self\<lparr>WLscale := Num s, WLmin := Num (s * of_int \<lfloor>Min (set rs) / s\<rfloor>)\<rparr>)
              else (Inl UnboundLocalError, self\<lparr>WLscale := Num s\<rparr>))"
proof -
  define t where "t = (Max (set rs) - Min (set rs)) / of_int (NZGrid self - 5)"
  define dist where "dist = map (\<lambda>c. \<bar>c - t\<bar>) candidate_steps"
  have g: "NZGrid self - 5 \<noteq> 0" using grid by simp
  have dne: "dist \<noteq> []" by (simp add: dist_def candidate_steps_def)
  obtain i m where m: "np_min (map Num dist) = Inr m"
    and fw: "first_where (map (\<lambda>d. feq d m) (map Num dist)) = Inr i"
    and i: "i < length dist"
    and least: "\<forall>j<length dist. dist ! i \<le> dist ! j"
    and first: "\<forall>j<i. dist ! j \<noteq> dist ! i"
    using first_minimum [OF dne] by blast
  have len: "length dist = length candidate_steps" by (simp add: dist_def)
  have nth: "\<And>j. j < length candidate_steps \<Longrightarrow> dist ! j = \<bar>candidate_steps ! j - t\<bar>"
    by (simp add: dist_def)
  define s where "s = candidate_steps ! i"
  have spos: "s \<noteq> 0"
    using candidates_bounds [of s] i len by (auto simp: s_def)
  have sc: "SCALE ! i = Num s"
    using i len by (simp add: SCALE_candidates s_def)
  have dS: "map (\<lambda>s. fabs (fsub s (fdiv (fsub (Num (Max (set rs))) (Num (Min (set rs))))
                (Num (of_int (NZGrid self - 5)))))) SCALE = map Num dist"
    unfolding dist_def t_def by (rule dSCALE_Num [OF g])
  have res: "best_fit_waterlvl self =
      (if WLdatum self = 0 then
         (Inr (Num s, Num (s * of_int \<lceil>Max (set rs) / s\<rceil>)),
          self\<lparr>WLscale := Num s, WLmin := Num (s * of_int \<lceil>Max (set rs) / s\<rceil>)\<rparr>)
       else if WLdatum self = 1 then
         (Inr (Num s, Num (s * of_int \<lfloor>Min (set rs) / s\<rfloor>)),
          self\<lparr>WLscale := Num s, WLmin := Num (s * of_int \<lfloor>Min (set rs) / s\<rfloor>)\<rparr>)
       else (Inl UnboundLocalError, self\<lparr>WLscale := Num s\<rparr>))"
    unfolding best_fit_waterlvl_def Let_def
    apply (simp only: ds vs option.case sum.case np_max_Num [OF ne] np_min_Num [OF ne] dS m fw sc)
    apply (simp add: spos)
    done
  have A: "\<forall>j<length candidate_steps. \<bar>candidate_steps ! i - t\<bar> \<le> \<bar>candidate_steps ! j - t\<bar>"
    using least i len nth by auto
  have B: "\<forall>j<i. \<bar>candidate_steps ! j - t\<bar> \<noteq> \<bar>candidate_steps ! i - t\<bar>"
    using first i len nth by auto
  show ?thesis
    unfolding Let_def
  proof (intro exI conjI)
    show "i < length candidate_steps" using i len by simp
    show "\<forall>j<length candidate_steps.
              \<bar>candidate_steps ! i - (Max (set rs) - Min (set rs)) / of_int (NZGrid self - 5)\<bar>
              \<le> \<bar>candidate_steps ! j - (Max (set rs) - Min (set rs)) / of_int (NZGrid self - 5)\<bar>"
      using A unfolding t_def .
    show "\<forall>j<i.
              \<bar>candidate_steps ! j - (Max (set rs) - Min (set rs)) / of_int (NZGrid self - 5)\<bar>
              \<noteq> \<bar>candidate_steps ! i - (Max (set rs) - Min (set rs)) / of_int (NZGrid self - 5)\<bar>"
      using B unfolding t_def .
  qed (use res in \<open>simp only: s_def\<close>)
qed

lemma candidates_cases:
  "c \<in> set candidate_steps \<Longrightarrow>
     (\<exists>k\<in>{1..<6::nat}. c = real k / 20) \<or> (\<exists>k\<in>{3..<51::nat}. c = real k / 10)"
  unfolding candidate_steps_def set_append set_map set_upt by blast

lemma candidates_mem: "1/20 \<in> set candidate_steps" "5 \<in> set candidate_steps" "33/10 \<in> set candidate_steps"
proof -
  have "real 1 / 20 \<in> set candidate_steps" unfolding candidate_steps_def set_append set_map set_upt
    by (intro UnI1 imageI) simp
  then show "1/20 \<in> set candidate_steps" by simp
  have "real 50 / 10 \<in> set candidate_steps" unfolding candidate_steps_def set_append set_map set_upt
    by (intro UnI2 imageI) simp
  then show "5 \<in> set candidate_steps" by simp
  have "real 33 / 10 \<in> set candidate_steps" unfolding candidate_steps_def set_append set_map set_upt
    by (intro UnI2 imageI) simp
  then show "33/10 \<in> set candidate_steps" by simp
qed

lemma nearest_saturates_high:
  assumes "s \<in> set candidate_steps" "\<forall>c\<in>set candidate_steps. \<bar>s - t\<bar> \<le> \<bar>c - t\<bar>" "5 \<le> t"
  shows "s = 5"
proof -
  have "\<bar>s - t\<bar> \<le> \<bar>5 - t\<bar>" using assms(2) candidates_mem(2) by blast
  moreover have "s \<le> 5" using candidates_bounds [OF assms(1)] by simp
  ultimately show ?thesis using assms(3) by linarith
qed

lemma nearest_saturates_low:
  assumes "s \<in> set candidate_steps" "\<forall>c\<in>set candidate_steps. \<bar>s - t\<bar> \<le> \<bar>c - t\<bar>" "t \<le> 1/20"
  shows "s = 1/20"
proof -
  have "\<bar>s - t\<bar> \<le> \<bar>1/20 - t\<bar>" using assms(2) candidates_mem(1) by blast
  moreover have "1/20 \<le> s" using candidates_bounds [OF assms(1)] by simp
  ultimately show ?thesis using assms(3) by linarith
qed

lemma nearest_to_ten_thirds:
  assumes "s \<in> set candidate_steps" "\<forall>c\<in>set candidate_steps. \<bar>s - 10/3\<bar> \<le> \<bar>c - 10/3\<bar>"
  shows "s = 33/10"
proof -
  have le: "\<bar>s - 10/3\<bar> \<le> 1/30" using assms(2) candidates_mem(3) by fastforce
  from candidates_cases [OF assms(1)] show ?thesis
  proof
    assume "\<exists>k\<in>{1..<6::nat}. s = real k / 20"
    then obtain k where "k < 6" "s = real k / 20" by auto
    then have "s \<le> 5/20" by simp
    with le show ?thesis by linarith
  next
    assume "\<exists>k\<in>{3..<51::nat}. s = real k / 10"
    then obtain k where k: "s = real k / 10" by auto
    with le have "\<bar>3 * real k - 100\<bar> \<le> 1" by (simp add: field_simps abs_le_iff)
    then have "\<bar>3 * int k - 100\<bar> \<le> 1" by linarith
    then have "k = 33" by presburger
    with k show ?thesis by simp
  qed
qed

lemma first_is_lowest:
  assumes i: "i < length candidate_steps" and c: "c \<in> set candidate_steps"
    and first: "\<forall>j<i. f (candidate_steps ! j) \<noteq> f (candidate_steps ! i)"
    and tie: "f c = f (candidate_steps ! i)"
  shows "candidate_steps ! i \<le> c"
proof -
  obtain j where j: "j < length candidate_steps" "c = candidate_steps ! j"
    using c by (auto simp: in_set_conv_nth)
  with first tie have "\<not> j < i" by auto
  then have "i \<le> j" by simp
  with j candidates_sorted show ?thesis by (simp add: sorted_nth_mono)
qed

lemma first_where_less: "first_where bs = Inr i \<Longrightarrow> i < length bs"
  by (induction bs arbitrary: i) (auto split: if_splits sum.splits)

lemma SCALE_nth_bounds:
  assumes "i < length SCALE"
  shows "\<exists>s. SCALE ! i = Num s \<and> 1/20 \<le> s \<and> s \<le> 5"
proof -
  have i: "i < length candidate_steps" using assms by (simp add: SCALE_candidates)
  then have "candidate_steps ! i \<in> set candidate_steps" by simp
  from candidates_bounds [OF this] i show ?thesis by (simp add: SCALE_candidates)
qed

lemma best_fit_waterlvl_returns_SCALE:
  assumes "best_fit_waterlvl self = (Inr (st, org), self')"
  shows "\<exists>i<length SCALE. st = SCALE ! i"
  using assms unfolding best_fit_waterlvl_def Let_def
  by (auto split: option.splits sum.splits if_splits dest!: first_where_less)

text \<open>With five grid divisions the target is a division by zero.\<close>

lemma dSCALE_PosInf:
  assumes "mn < mx"
  shows "map (\<lambda>s. fabs (fsub s (fdiv (fsub (Num mx) (Num mn)) (Num (of_int 0))))) SCALE =
         map (\<lambda>c. PosInf) candidate_steps"
  using assms by (simp add: SCALE_candidates fsub_def o_def signed_inf_def)

lemma dSCALE_NaN:
  "map (\<lambda>s. fabs (fsub s (fdiv (fsub (Num mx) (Num mx)) (Num (of_int 0))))) SCALE =
         map (\<lambda>c. NaN) candidate_steps"
  by (simp add: SCALE_candidates fsub_def o_def)

lemma candidates_nonempty: "candidate_steps \<noteq> []"
  using length_candidates by auto

lemma np_min_const_PosInf: "xs \<noteq> [] \<Longrightarrow> np_min (map (\<lambda>c. PosInf) xs) = Inr PosInf"
proof -
  have "fold fminimum (map (\<lambda>c. PosInf) ys) PosInf = PosInf" for ys :: "'a list"
    by (induction ys) (simp_all add: fminimum_def)
  then show "xs \<noteq> [] \<Longrightarrow> ?thesis" by (cases xs) (simp_all add: np_min_def)
qed

lemma np_min_const_NaN: "xs \<noteq> [] \<Longrightarrow> np_min (map (\<lambda>c. NaN) xs) = Inr NaN"
proof -
  have "fold fminimum (map (\<lambda>c. NaN) ys) NaN = NaN" for ys :: "'a list"
    by (induction ys) (simp_all add: fminimum_def)
  then show "xs \<noteq> [] \<Longrightarrow> ?thesis" by (cases xs) (simp_all add: np_min_def)
qed

lemma first_where_PosInf:
  "xs \<noteq> [] \<Longrightarrow> first_where (map (\<lambda>d. feq d PosInf) (map (\<lambda>c. PosInf) xs)) = Inr 0"
  by (cases xs) simp_all

lemma first_where_NaN:
  "first_where (map (\<lambda>d. feq d NaN) (map (\<lambda>c. NaN) xs)) = Inl IndexError"
  by (induction xs) simp_all

lemma candidates_first: "candidate_steps ! 0 = 1/20"
  by (simp add: candidate_steps_def upt_conv_Cons)

lemma best_fit_waterlvl_zero_grid:
  assumes ds: "wldset self = Some ds"
    and vs: "waterlvl_values self ds = map Num rs"
    and ne: "rs \<noteq> []"
    and grid: "NZGrid self = 5"
    and range: "Min (set rs) < Max (set rs)"
  shows "best_fit_waterlvl self =
           (if WLdatum self = 0 then
              (Inr (Num (1/20), Num (1/20 * of_int \<lceil>Max (set rs) / (1/20)\<rceil>)),
               self\<lparr>WLscale := Num (1/20), WLmin := Num (1/20 * of_int \<lceil>Max (set rs) / (1/20)\<rceil>)\<rparr>)
            else if WLdatum self = 1 then
              (Inr (Num (1/20), Num (1/20 * of_int \<lfloor>Min (set rs) / (1/20)\<rfloor>)),
               self\<lparr>WLscale := Num (1/20), WLmin := Num (1/20 * of_int \<lfloor>Min (set rs) / (1/20)\<rfloor>)\<rparr>)
            else (Inl UnboundLocalError, self\<lparr>WLscale := Num (1/20)\<rparr>))"
proof -
  have g: "NZGrid self - 5 = 0" using grid by simp
  have sc: "SCALE ! 0 = Num (1/20)"
    using candidates_nonempty by (simp add: SCALE_candidates candidates_first)
  show ?thesis
    unfolding best_fit_waterlvl_def Let_def
    apply (simp only: ds vs option.case sum.case np_max_Num [OF ne] np_min_Num [OF ne] g
        dSCALE_PosInf [OF range] np_min_const_PosInf [OF candidates_nonempty]
        first_where_PosInf [OF candidates_nonempty] sc)
    apply simp
    done
qed

lemma best_fit_waterlvl_zero_grid_flat:
  assumes ds: "wldset self = Some ds"
    and vs: "waterlvl_values self ds = map Num rs"
    and ne: "rs \<noteq> []"
    and grid: "NZGrid self = 5"
    and range: "Min (set rs) = Max (set rs)"
  shows "best_fit_waterlvl self = (Inl IndexError, self)"
proof -
  have g: "NZGrid self - 5 = 0" using grid by simp
  show ?thesis
    unfolding best_fit_waterlvl_def Let_def
    by (simp only: ds vs option.case sum.case np_max_Num [OF ne] np_min_Num [OF ne] g range
        dSCALE_NaN np_min_const_NaN [OF candidates_nonempty] first_where_NaN)
qed

lemma example_levels_values:
  "wldset example_levels = Some \<lparr>WL = [Num 0, NaN, Num 10, Num 4], Elevation = Num 100\<rparr>"
  "waterlvl_values example_levels \<lparr>WL = [Num 0, NaN, Num 10, Num 4], Elevation = Num 100\<rparr>
     = map Num [0, 10, 4]"
  "NZGrid example_levels = 8" "WLdatum example_levels = 0"
  by (simp_all add: example_levels_def Hydrograph_init_def waterlvl_values_def)

text \<open>
  Claim C1. When the water levels left after dropping the NaNs are finite numbers \<open>rs\<close>,
  at least one, and \<open>NZGrid - 5 \<ge> 1\<close>, \<^verbatim>\<open>best_fit_waterlvl\<close> returns as scale the
  candidate step nearest to the target \<open>(max rs - min rs) / (NZGrid - 5)\<close>; among
  candidates at the same distance it returns the lowest. For levels spanning 0 to 10 and
  \<open>NZGrid = 8\<close> the step is 3.3.
\<close>

theorem best_fit_waterlvl_nearest_step:
  assumes "wldset self = Some ds"
    and "waterlvl_values self ds = map Num rs"
    and "rs \<noteq> []"
    and "1 \<le> NZGrid self - 5"
    and "WLdatum self = 0 \<or> WLdatum self = 1"
  shows "\<exists>s origin self'.
           best_fit_waterlvl self = (Inr (Num s, origin), self') \<and>
           s \<in> set candidate_steps \<and>
           (\<forall>c\<in>set candidate_steps.
              \<bar>s - (Max (set rs) - Min (set rs)) / of_int (NZGrid self - 5)\<bar>
              \<le> \<bar>c - (Max (set rs) - Min (set rs)) / of_int (NZGrid self - 5)\<bar>) \<and>
           (\<forall>c\<in>set candidate_steps.
              \<bar>c - (Max (set rs) - Min (set rs)) / of_int (NZGrid self - 5)\<bar>
              = \<bar>s - (Max (set rs) - Min (set rs)) / of_int (NZGrid self - 5)\<bar> \<longrightarrow> s \<le> c) \<and>
           (Min (set rs) = 0 \<and> Max (set rs) = 10 \<and> NZGrid self = 8 \<longrightarrow> s = 3.3)"
proof -
  define t where "t = (Max (set rs) - Min (set rs)) / of_int (NZGrid self - 5)"
  have grid: "NZGrid self \<noteq> 5" using assms(4) by simp
  obtain i where i: "i < length candidate_steps"
    and least: "\<forall>j<length candidate_steps. \<bar>candidate_steps ! i - t\<bar> \<le> \<bar>candidate_steps ! j - t\<bar>"
    and first: "\<forall>j<i. \<bar>candidate_steps ! j - t\<bar> \<noteq> \<bar>candidate_steps ! i - t\<bar>"
    and res: "best_fit_waterlvl self =
             (let s = candidate_steps ! i in
              if WLdatum self = 0 then
                (Inr (Num s, Num (s * of_int \<lceil>Max (set rs) / s\<rceil>)),
                 self\<lparr>WLscale := Num s, WLmin := Num (s * of_int \<lceil>Max (set rs) / s\<rceil>)\<rparr>)
              else if WLdatum self = 1 then
                (Inr (Num s, Num (s * of_int \<lfloor>Min (set rs) / s\<rfloor>)),
                 self\<lparr>WLscale := Num s, WLmin := Num (s * of_int \<lfloor>Min (set rs) / s\<rfloor>)\<rparr>)
              else (Inl UnboundLocalError, self\<lparr>WLscale := Num s\<rparr>))"
    using best_fit_waterlvl_finite [OF assms(1,2,3) grid] unfolding t_def by blast
  define s where "s = candidate_steps ! i"
  have mem: "s \<in> set candidate_steps" using i by (simp add: s_def)
  have min: "\<forall>c\<in>set candidate_steps. \<bar>s - t\<bar> \<le> \<bar>c - t\<bar>"
    using least unfolding s_def by (auto simp: in_set_conv_nth)
  have low: "\<forall>c\<in>set candidate_steps. \<bar>c - t\<bar> = \<bar>s - t\<bar> \<longrightarrow> s \<le> c"
    unfolding s_def using first_is_lowest [OF i _ first] by blast
  have ex: "Min (set rs) = 0 \<and> Max (set rs) = 10 \<and> NZGrid self = 8 \<longrightarrow> s = 3.3"
  proof
    assume "Min (set rs) = 0 \<and> Max (set rs) = 10 \<and> NZGrid self = 8"
    then have "t = 10/3" by (simp add: t_def)
    with mem min have "s = 33/10" using nearest_to_ten_thirds by blast
    then show "s = 3.3" by simp
  qed
  from assms(5) res obtain origin self' where
    "best_fit_waterlvl self = (Inr (Num s, origin), self')"
    unfolding s_def Let_def by auto
  with mem min low ex show ?thesis unfolding t_def by blast
qed

theorem best_fit_waterlvl_nearest_step_witness:
  "\<exists>origin self'. best_fit_waterlvl example_levels = (Inr (Num 3.3, origin), self')"
  using best_fit_waterlvl_nearest_step [OF example_levels_values(1,2)]
  by (auto simp: example_levels_values(3,4))

lemma isnan_fsub: "isnan x \<Longrightarrow> isnan (fsub e x)"
  by (cases x; cases e) (simp_all add: fsub_def)

lemma waterlvl_values_all_nan:
  assumes "\<forall>x\<in>set (WL ds). isnan x"
  shows "waterlvl_values self ds = []"
  using assms by (auto simp: waterlvl_values_def filter_empty_conv isnan_fsub)

text \<open>
  Claim C7. When the water level array is empty or holds only NaNs,
  \<^verbatim>\<open>best_fit_waterlvl\<close> raises (the \<^verbatim>\<open>ValueError\<close> of \<^verbatim>\<open>np.max\<close> on an array of size
  zero), returns no scale and leaves the object as it was.
\<close>

theorem best_fit_waterlvl_no_data:
  assumes "wldset self = Some ds"
    and "\<forall>x\<in>set (WL ds). isnan x"
  shows "best_fit_waterlvl self = (Inl ValueError, self)"
  by (simp add: best_fit_waterlvl_def assms(1) waterlvl_values_all_nan [OF assms(2)] np_max_def)

theorem best_fit_waterlvl_no_data_witness:
  "best_fit_waterlvl example_missing = (Inl ValueError, example_missing)"
  by (rule best_fit_waterlvl_no_data [of _ "\<lparr>WL = [NaN, NaN], Elevation = Num 100\<rparr>"])
     (simp_all add: example_missing_def Hydrograph_init_def)

lemma fitted_origin:
  assumes res: "best_fit_waterlvl self =
             (if WLdatum self = 0 then
                (Inr (Num s, Num (s * of_int \<lceil>mx / s\<rceil>)),
                 self\<lparr>WLscale := Num s, WLmin := Num (s * of_int \<lceil>mx / s\<rceil>)\<rparr>)
              else if WLdatum self = 1 then
                (Inr (Num s, Num (s * of_int \<lfloor>mn / s\<rfloor>)),
                 self\<lparr>WLscale := Num s, WLmin := Num (s * of_int \<lfloor>mn / s\<rfloor>)\<rparr>)
              else (Inl UnboundLocalError, self\<lparr>WLscale := Num s\<rparr>))"
    and datum: "WLdatum self = 0 \<or> WLdatum self = 1"
  shows "\<exists>origin.
           best_fit_waterlvl self =
             (Inr (Num s, Num origin), self\<lparr>WLscale := Num s, WLmin := Num origin\<rparr>) \<and>
           (WLdatum self = 0 \<longrightarrow> origin = of_int \<lceil>mx / s\<rceil> * s) \<and>
           (WLdatum self = 1 \<longrightarrow> origin = of_int \<lfloor>mn / s\<rfloor> * s) \<and>
           (\<exists>k::int. origin = of_int k * s)"
proof (cases "WLdatum self = 0")
  case True
  with res show ?thesis
    by (intro exI [of _ "of_int \<lceil>mx / s\<rceil> * s"]) (auto simp: mult.commute)
next
  case False
  with datum have "WLdatum self = 1" by simp
  with res show ?thesis
    by (intro exI [of _ "of_int \<lfloor>mn / s\<rfloor> * s"]) (auto simp: mult.commute)
qed

text \<open>
  Claim C5. Whenever a step \<open>s\<close> is fitted to finite water levels \<open>rs\<close> (at least one),
  the origin returned is \<open>\<lceil>max rs / s\<rceil> * s\<close> when the datum is 0 (mbgs, inverted axis)
  and \<open>\<lfloor>min rs / s\<rfloor> * s\<close> when the datum is 1 (masl): an integer multiple of the step.
  Both are written to the object. A step is fitted unless \<open>NZGrid = 5\<close> and all levels
  are equal.
\<close>

theorem best_fit_waterlvl_origin:
  assumes "wldset self = Some ds"
    and "waterlvl_values self ds = map Num rs"
    and "rs \<noteq> []"
    and "WLdatum self = 0 \<or> WLdatum self = 1"
    and "NZGrid self \<noteq> 5 \<or> Min (set rs) < Max (set rs)"
  shows "\<exists>s origin.
           best_fit_waterlvl self =
             (Inr (Num s, Num origin), self\<lparr>WLscale := Num s, WLmin := Num origin\<rparr>) \<and>
           s \<in> set candidate_steps \<and>
           (WLdatum self = 0 \<longrightarrow> origin = of_int \<lceil>Max (set rs) / s\<rceil> * s) \<and>
           (WLdatum self = 1 \<longrightarrow> origin = of_int \<lfloor>Min (set rs) / s\<rfloor> * s) \<and>
           (\<exists>k::int. origin = of_int k * s)"
proof (cases "NZGrid self = 5")
  case True
  with assms(5) have "Min (set rs) < Max (set rs)" by simp
  from fitted_origin [OF best_fit_waterlvl_zero_grid [OF assms(1,2,3) True this] assms(4)]
    candidates_mem(1)
  show ?thesis by blast
next
  case False
  from best_fit_waterlvl_finite [OF assms(1,2,3) False]
  obtain i where i: "i < length candidate_steps"
    and res: "best_fit_waterlvl self =
             (let s = candidate_steps ! i in
              if WLdatum self = 0 then
                (Inr (Num s, Num (s * of_int \<lceil>Max (set rs) / s\<rceil>)),
                 self\<lparr>WLscale := Num s, WLmin := Num (s * of_int \<lceil>Max (set rs) / s\<rceil>)\<rparr>)
              else if WLdatum self = 1 then
                (Inr (Num s, Num (s * of_int \<lfloor>Min (set rs) / s\<rfloor>)),
                 self\<lparr>WLscale := Num s, WLmin := Num (s * of_int \<lfloor>Min (set rs) / s\<rfloor>)\<rparr>)
              else (Inl UnboundLocalError, self\<lparr>WLscale := Num s\<rparr>))"
    by blast
  have mem: "candidate_steps ! i \<in> set candidate_steps" using i by simp
  from fitted_origin [OF res [unfolded Let_def] assms(4)] mem
  show ?thesis by blast
qed

theorem best_fit_waterlvl_origin_witness:
  "\<exists>s origin. best_fit_waterlvl example_masl =
       (Inr (Num s, Num origin), example_masl\<lparr>WLscale := Num s, WLmin := Num origin\<rparr>) \<and>
     origin = of_int \<lfloor>93 / s\<rfloor> * s"
proof -
  have v: "wldset example_masl = Some \<lparr>WL = [Num 2, NaN, Num 7], Elevation = Num 100\<rparr>"
    "waterlvl_values example_masl \<lparr>WL = [Num 2, NaN, Num 7], Elevation = Num 100\<rparr>
       = map Num [98, 93]"
    "WLdatum example_masl = 0 \<or> WLdatum example_masl = 1"
    "NZGrid example_masl \<noteq> 5 \<or> Min (set [98, 93::real]) < Max (set [98, 93])"
    by (simp_all add: example_masl_def Hydrograph_init_def waterlvl_values_def fsub_def)
  have d: "WLdatum example_masl = 1" by (simp add: example_masl_def)
  from best_fit_waterlvl_origin [OF v(1,2) _ v(3,4)] d
  show ?thesis by auto
qed

text \<open>
  Claim C10. Every step that \<^verbatim>\<open>best_fit_waterlvl\<close> returns lies between 0.05 and 5.0,
  whatever the water levels and the number of grid divisions. For finite water levels
  \<open>rs\<close> and \<open>NZGrid \<noteq> 5\<close> a step is returned, and it is 5.0 when the target
  \<open>(max rs - min rs) / (NZGrid - 5)\<close> is 5.0 or more, 0.05 when the target is 0.05 or less.
\<close>

theorem best_fit_waterlvl_step_bounds:
  "(\<forall>st org self'. best_fit_waterlvl self = (Inr (st, org), self') \<longrightarrow>
       (\<exists>s. st = Num s \<and> 0.05 \<le> s \<and> s \<le> 5)) \<and>
   (wldset self = Some ds \<and> waterlvl_values self ds = map Num rs \<and> rs \<noteq> [] \<and>
    NZGrid self \<noteq> 5 \<and> (WLdatum self = 0 \<or> WLdatum self = 1) \<longrightarrow>
       (\<exists>s org self'. best_fit_waterlvl self = (Inr (Num s, org), self') \<and>
          0.05 \<le> s \<and> s \<le> 5 \<and>
          (5 \<le> (Max (set rs) - Min (set rs)) / of_int (NZGrid self - 5) \<longrightarrow> s = 5) \<and>
          ((Max (set rs) - Min (set rs)) / of_int (NZGrid self - 5) \<le> 0.05 \<longrightarrow> s = 0.05)))"
proof (intro conjI allI impI)
  fix st org self'
  assume "best_fit_waterlvl self = (Inr (st, org), self')"
  then obtain i where "i < length SCALE" "st = SCALE ! i"
    using best_fit_waterlvl_returns_SCALE by blast
  then show "\<exists>s. st = Num s \<and> 0.05 \<le> s \<and> s \<le> 5"
    using SCALE_nth_bounds [of i] by auto
next
  assume a: "wldset self = Some ds \<and> waterlvl_values self ds = map Num rs \<and> rs \<noteq> [] \<and>
    NZGrid self \<noteq> 5 \<and> (WLdatum self = 0 \<or> WLdatum self = 1)"
  define t where "t = (Max (set rs) - Min (set rs)) / of_int (NZGrid self - 5)"
  from a best_fit_waterlvl_finite [of self ds rs]
  obtain i where i: "i < length candidate_steps"
    and least: "\<forall>j<length candidate_steps. \<bar>candidate_steps ! i - t\<bar> \<le> \<bar>candidate_steps ! j - t\<bar>"
    and res: "best_fit_waterlvl self =
             (let s = candidate_steps ! i in
              if WLdatum self = 0 then
                (Inr (Num s, Num (s * of_int \<lceil>Max (set rs) / s\<rceil>)),
                 self\<lparr>WLscale := Num s, WLmin := Num (s * of_int \<lceil>Max (set rs) / s\<rceil>)\<rparr>)
              else if WLdatum self = 1 then
                (Inr (Num s, Num (s * of_int \<lfloor>Min (set rs) / s\<rfloor>)),
                 self\<lparr>WLscale := Num s, WLmin := Num (s * of_int \<lfloor>Min (set rs) / s\<rfloor>)\<rparr>)
              else (Inl UnboundLocalError, self\<lparr>WLscale := Num s\<rparr>))"
    unfolding t_def by blast
  define s where "s = candidate_steps ! i"
  have mem: "s \<in> set candidate_steps" using i by (simp add: s_def)
  have min: "\<forall>c\<in>set candidate_steps. \<bar>s - t\<bar> \<le> \<bar>c - t\<bar>"
    using least unfolding s_def by (auto simp: in_set_conv_nth)
  have hi: "5 \<le> t \<longrightarrow> s = 5" using nearest_saturates_high [OF mem min] by blast
  have lo: "t \<le> 0.05 \<longrightarrow> s = 0.05" using nearest_saturates_low [OF mem min] by simp
  from a res obtain org self' where
    "best_fit_waterlvl self = (Inr (Num s, org), self')"
    unfolding s_def Let_def by auto
  with candidates_bounds [OF mem] hi lo
  show "\<exists>s org self'. best_fit_waterlvl self = (Inr (Num s, org), self') \<and>
          0.05 \<le> s \<and> s \<le> 5 \<and>
          (5 \<le> (Max (set rs) - Min (set rs)) / of_int (NZGrid self - 5) \<longrightarrow> s = 5) \<and>
          ((Max (set rs) - Min (set rs)) / of_int (NZGrid self - 5) \<le> 0.05 \<longrightarrow> s = 0.05)"
    unfolding t_def by blast
qed

theorem best_fit_waterlvl_step_bounds_witness:
  "\<exists>org self'. best_fit_waterlvl example_deep = (Inr (Num 5, org), self')"
proof -
  have v: "wldset example_deep = Some \<lparr>WL = [Num 0, Num 100], Elevation = Num 100\<rparr>"
    "waterlvl_values example_deep \<lparr>WL = [Num 0, Num 100], Elevation = Num 100\<rparr>
       = map Num [0, 100]"
    "NZGrid example_deep = 8" "WLdatum example_deep = 0"
    by (simp_all add: example_deep_def Hydrograph_init_def waterlvl_values_def)
  from best_fit_waterlvl_step_bounds [of example_deep "\<lparr>WL = [Num 0, Num 100], Elevation = Num 100\<rparr>" "[0, 100]"]
  show ?thesis by (auto simp: v)
qed

section \<open>Properties of the binning\<close>

lemma nbin_div: "nat \<lfloor>real n / real w\<rfloor> = n div w"
  by (simp add: floor_divide_of_nat_eq)

lemma reshape_row:
  assumes "k * w + w \<le> length xs" "k * w + w \<le> n"
  shows "map (\<lambda>j. take n xs ! (k * w + j)) [0 ..< w] = window w k xs"
proof (rule nth_equalityI)
  show "length (map (\<lambda>j. take n xs ! (k * w + j)) [0 ..< w]) = length (window w k xs)"
    using assms by (simp add: window_def)
next
  fix j assume "j < length (map (\<lambda>j. take n xs ! (k * w + j)) [0 ..< w])"
  then have j: "j < w" by simp
  with assms show "map (\<lambda>j. take n xs ! (k * w + j)) [0 ..< w] ! j = window w k xs ! j"
    by (simp add: window_def)
qed

lemma bin_sum_windows:
  assumes "0 < w"
  shows "bin_sum xs (int w) = Inr (map (\<lambda>k. np_sum (window w k xs)) [0 ..< length xs div w])"
proof -
  let ?n = "length xs div w"
  have le: "?n * w \<le> length xs" by simp
  have len: "length (take (?n * w) xs) = ?n * w" using le by simp
  have rows: "map (\<lambda>k. map (\<lambda>j. take (?n * w) xs ! (k * w + j)) [0 ..< w]) [0 ..< ?n]
      = map (\<lambda>k. window w k xs) [0 ..< ?n]"
  proof (rule map_cong [OF refl])
    fix k assume "k \<in> set [0 ..< ?n]"
    then have "Suc k \<le> ?n" by simp
    then have "Suc k * w \<le> ?n * w" by (rule mult_le_mono1)
    then have a: "k * w + w \<le> ?n * w" by (simp add: add.commute)
    from a le have b: "k * w + w \<le> length xs" by linarith
    show "map (\<lambda>j. take (?n * w) xs ! (k * w + j)) [0 ..< w] = window w k xs"
      using b a by (rule reshape_row)
  qed
  have "bin_sum xs (int w) =
      (case np_reshape (take (?n * w) xs) ?n w of
         Inl e \<Rightarrow> Inl e | Inr bheight \<Rightarrow> Inr (map np_sum bheight))"
    using assms by (simp add: bin_sum_def Let_def nbin_div)
  moreover have "np_reshape (take (?n * w) xs) ?n w = Inr (map (\<lambda>k. window w k xs) [0 ..< ?n])"
    unfolding np_reshape_def using len rows by simp
  ultimately show ?thesis by (simp add: o_def)
qed

lemma bin_sum_binned:
  assumes "0 < w"
  shows "\<exists>ys. bin_sum xs (int w) = Inr ys \<and> binned w False xs ys"
  by (simp add: bin_sum_windows [OF assms] binned_def)

lemma bin_mean_binned:
  assumes "0 < w"
  shows "\<exists>ys. bin_sum xs (int w) = Inr ys \<and>
           binned w True xs (map (\<lambda>v. fdiv v (Num (of_int (int w)))) ys)"
  by (simp add: bin_sum_windows [OF assms] binned_def)

lemma resample_bin_width:
  assumes idx: "py_index [1, 7, 30, 365] (bwidth_indx self) = Inr (int w)"
    and w: "0 < w" and nz: "bwidth_indx self \<noteq> 0"
  shows "resample_bin self =
     (Inr (), self\<lparr>bwidth := int w,
        bTIME := map (\<lambda>k. fdiv (np_sum (window w k (TIMEmeteo self))) (Num (real w)))
                   [0 ..< length (TIMEmeteo self) div w],
        bTMAX := map (\<lambda>k. fdiv (np_sum (window w k (TMAX self))) (Num (real w)))
                   [0 ..< length (TMAX self) div w],
        bPTOT := map (\<lambda>k. np_sum (window w k (PTOT self))) [0 ..< length (PTOT self) div w],
        bRAIN := map (\<lambda>k. np_sum (window w k (RAIN self))) [0 ..< length (RAIN self) div w]\<rparr>)"
  unfolding resample_bin_def Let_def
  by (simp add: idx nz bin_sum_windows [OF w] o_def)

lemma binned_sum: "binned w False xs (map (\<lambda>k. np_sum (window w k xs)) [0 ..< length xs div w])"
  by (simp add: binned_def)

lemma binned_mean:
  "binned w True xs (map (\<lambda>k. fdiv (np_sum (window w k xs)) (Num (real w))) [0 ..< length xs div w])"
  by (simp add: binned_def)

text \<open>
  Claim C3. For a bin width of 7, 30 or 365 days (\<^verbatim>\<open>bwidth_indx\<close> 1, 2 or 3),
  \<^verbatim>\<open>resample_bin\<close> does not fail; each binned series has one value for each complete
  window of \<open>w\<close> consecutive samples of its series, \<open>length xs div w\<close> of them, and the
  samples after the last complete window are not used; precipitation and rain are the
  sums of the windows, time and maximum temperature the sums divided by \<open>w\<close>. An empty
  series gives an empty binned series. The daily series are not changed.
\<close>

theorem resample_bin_binned:
  assumes "bwidth_indx self \<in> {1, 2, 3}"
  shows "\<exists>w self'.
           resample_bin self = (Inr (), self') \<and>
           (bwidth_indx self = 1 \<longrightarrow> w = 7) \<and>
           (bwidth_indx self = 2 \<longrightarrow> w = 30) \<and>
           (bwidth_indx self = 3 \<longrightarrow> w = 365) \<and>
           bwidth self' = int w \<and>
           binned w True (TIMEmeteo self) (bTIME self') \<and>
           binned w True (TMAX self) (bTMAX self') \<and>
           binned w False (PTOT self) (bPTOT self') \<and>
           binned w False (RAIN self) (bRAIN self') \<and>
           length (bTIME self') = length (TIMEmeteo self) div w \<and>
           length (bTMAX self') = length (TMAX self) div w \<and>
           length (bPTOT self') = length (PTOT self) div w \<and>
           length (bRAIN self') = length (RAIN self) div w \<and>
           (PTOT self = [] \<longrightarrow> bPTOT self' = []) \<and>
           TIMEmeteo self' = TIMEmeteo self \<and> TMAX self' = TMAX self \<and>
           PTOT self' = PTOT self \<and> RAIN self' = RAIN self"
proof -
  from assms consider "bwidth_indx self = 1" | "bwidth_indx self = 2" | "bwidth_indx self = 3"
    by auto
  then obtain w :: nat where idx: "py_index [1, 7, 30, 365] (bwidth_indx self) = Inr (int w)"
    and w: "0 < w"
    and tab: "bwidth_indx self = 1 \<longrightarrow> w = 7" "bwidth_indx self = 2 \<longrightarrow> w = 30"
      "bwidth_indx self = 3 \<longrightarrow> w = 365"
  proof cases
    case 1
    then show ?thesis by (intro that [of 7]) (simp_all add: py_index_def)
  next
    case 2
    then show ?thesis by (intro that [of 30]) (simp_all add: py_index_def)
  next
    case 3
    then show ?thesis by (intro that [of 365]) (simp_all add: py_index_def)
  qed
  have nz: "bwidth_indx self \<noteq> 0" using assms by auto
  define self' where "self' = self\<lparr>bwidth := int w,
        bTIME := map (\<lambda>k. fdiv (np_sum (window w k (TIMEmeteo self))) (Num (real w)))
                   [0 ..< length (TIMEmeteo self) div w],
        bTMAX := map (\<lambda>k. fdiv (np_sum (window w k (TMAX self))) (Num (real w)))
                   [0 ..< length (TMAX self) div w],
        bPTOT := map (\<lambda>k. np_sum (window w k (PTOT self))) [0 ..< length (PTOT self) div w],
        bRAIN := map (\<lambda>k. np_sum (window w k (RAIN self))) [0 ..< length (RAIN self) div w]\<rparr>"
  have res: "resample_bin self = (Inr (), self')"
    unfolding self'_def by (rule resample_bin_width [OF idx w nz])
  have f: "bwidth self' = int w"
    "bTIME self' = map (\<lambda>k. fdiv (np_sum (window w k (TIMEmeteo self))) (Num (real w)))
                   [0 ..< length (TIMEmeteo self) div w]"
    "bTMAX self' = map (\<lambda>k. fdiv (np_sum (window w k (TMAX self))) (Num (real w)))
                   [0 ..< length (TMAX self) div w]"
    "bPTOT self' = map (\<lambda>k. np_sum (window w k (PTOT self))) [0 ..< length (PTOT self) div w]"
    "bRAIN self' = map (\<lambda>k. np_sum (window w k (RAIN self))) [0 ..< length (RAIN self) div w]"
    "TIMEmeteo self' = TIMEmeteo self" "TMAX self' = TMAX self"
    "PTOT self' = PTOT self" "RAIN self' = RAIN self"
    by (simp_all add: self'_def)
  have b: "binned w True (TIMEmeteo self) (bTIME self')" "binned w True (TMAX self) (bTMAX self')"
    "binned w False (PTOT self) (bPTOT self')" "binned w False (RAIN self) (bRAIN self')"
    unfolding f by (rule binned_mean binned_sum)+
  have l: "length (bTIME self') = length (TIMEmeteo self) div w"
    "length (bTMAX self') = length (TMAX self) div w"
    "length (bPTOT self') = length (PTOT self) div w"
    "length (bRAIN self') = length (RAIN self) div w"
    using b by (simp_all add: binned_def)
  have e: "PTOT self = [] \<longrightarrow> bPTOT self' = []" using l(3) by auto
  from res tab f(1) b l e f(6-9) show ?thesis by blast
qed

theorem resample_bin_binned_witness:
  "\<exists>self'. resample_bin example_weather = (Inr (), self') \<and>
     length (bTIME self') = 2 \<and> length (bPTOT self') = 2 \<and> bRAIN self' = [] \<and>
     bPTOT self' ! 1 = np_sum (window 7 1 (PTOT example_weather))"
proof -
  have i: "bwidth_indx example_weather \<in> {1, 2, 3}" "bwidth_indx example_weather = 1"
    by (simp_all add: example_weather_def)
  have l: "length (TIMEmeteo example_weather) = 16" "length (PTOT example_weather) = 16"
    "length (RAIN example_weather) = 0"
    by (simp_all add: example_weather_def)
  from resample_bin_binned [OF i(1)] i(2)
  obtain self' where r: "resample_bin example_weather = (Inr (), self')"
    and b: "binned 7 False (PTOT example_weather) (bPTOT self')"
    and n: "length (bTIME self') = length (TIMEmeteo example_weather) div 7"
      "length (bPTOT self') = length (PTOT example_weather) div 7"
      "length (bRAIN self') = length (RAIN example_weather) div 7"
    by auto
  from n l have n': "length (bTIME self') = 2" "length (bPTOT self') = 2" "bRAIN self' = []"
    by simp_all
  from b n'(2) have "bPTOT self' ! 1 = np_sum (window 7 1 (PTOT example_weather))"
    by (simp add: binned_def)
  with r n' show ?thesis by blast
qed

section \<open>Properties of the margins\<close>

lemma margins_success:
  assumes "fwidth self \<noteq> 0" and "fheight self \<noteq> 0"
  shows "\<exists>htot htop hlow wtot. margins self =
     Inr (0.85 / fwidth self,
          (if meteo_on self then 0.85 else 0.15) / fwidth self,
          0.6 / fheight self,
          (0.25 + (if isGraphTitle self = 1 \<or> isLegend self = 1
                   then (if meteo_on self then 0.45 else 0.2) else 0)) / fheight self,
          htot, htop, hlow, wtot)"
  using assms by (simp add: margins_def Let_def add_divide_distrib)

lemma right_margin_value:
  assumes "fwidth self \<noteq> 0" and "fheight self \<noteq> 0"
  shows "fst (snd (projr (margins self))) = (if meteo_on self then 0.85 else 0.15) / fwidth self"
  using margins_success [OF assms] by auto

text \<open>
  Claim C4. For a figure of positive width and height, the margins of \<^verbatim>\<open>set_margins\<close>,
  which the code holds as fractions of the figure's width and height, are in inches:
  left 0.85, bottom 0.6, right 0.85 with the weather panel (\<^verbatim>\<open>meteo_on\<close>) and 0.15
  without it, top 0.25 plus 0.45 for a title or legend with the weather panel, plus 0.20
  for a title or legend without it. The right margin with the weather panel off is
  strictly smaller than with it on.
\<close>

theorem margins_inches:
  assumes "0 < fwidth self" and "0 < fheight self"
  shows "\<exists>left_margin right_margin bottom_margin top_margin htot htop hlow wtot.
           margins self =
             Inr (left_margin, right_margin, bottom_margin, top_margin, htot, htop, hlow, wtot) \<and>
           left_margin * fwidth self = 0.85 \<and>
           bottom_margin * fheight self = 0.6 \<and>
           right_margin * fwidth self = (if meteo_on self then 0.85 else 0.15) \<and>
           top_margin * fheight self =
             0.25 + (if (isGraphTitle self = 1 \<or> isLegend self = 1) \<and> meteo_on self then 0.45
                     else if (isGraphTitle self = 1 \<or> isLegend self = 1) \<and> \<not> meteo_on self
                     then 0.20 else 0) \<and>
           fst (snd (projr (margins (self\<lparr>meteo_on := False\<rparr>)))) * fwidth self
             < fst (snd (projr (margins (self\<lparr>meteo_on := True\<rparr>)))) * fwidth self \<and>
           fst (snd (projr (margins (self\<lparr>meteo_on := False\<rparr>))))
             < fst (snd (projr (margins (self\<lparr>meteo_on := True\<rparr>))))"
proof -
  have nz: "fwidth self \<noteq> 0" "fheight self \<noteq> 0" using assms by simp_all
  from margins_success [OF nz] obtain htot htop hlow wtot where
    m: "margins self =
     Inr (0.85 / fwidth self,
          (if meteo_on self then 0.85 else 0.15) / fwidth self,
          0.6 / fheight self,
          (0.25 + (if isGraphTitle self = 1 \<or> isLegend self = 1
                   then (if meteo_on self then 0.45 else 0.2) else 0)) / fheight self,
          htot, htop, hlow, wtot)"
    by blast
  have l: "0.85 / fwidth self * fwidth self = 0.85" using nz by simp
  have b: "0.6 / fheight self * fheight self = 0.6" using nz by simp
  have r: "(if meteo_on self then 0.85 else 0.15) / fwidth self * fwidth self
      = (if meteo_on self then 0.85 else 0.15)"
    using nz by simp
  have t: "(0.25 + (if isGraphTitle self = 1 \<or> isLegend self = 1
                   then (if meteo_on self then 0.45 else 0.2) else 0)) / fheight self * fheight self
      = 0.25 + (if (isGraphTitle self = 1 \<or> isLegend self = 1) \<and> meteo_on self then 0.45
                     else if (isGraphTitle self = 1 \<or> isLegend self = 1) \<and> \<not> meteo_on self
                     then 0.20 else 0)"
    using nz by simp
  have off: "fst (snd (projr (margins (self\<lparr>meteo_on := False\<rparr>)))) = 0.15 / fwidth self"
    using right_margin_value [of "self\<lparr>meteo_on := False\<rparr>"] nz by simp
  have on: "fst (snd (projr (margins (self\<lparr>meteo_on := True\<rparr>)))) = 0.85 / fwidth self"
    using right_margin_value [of "self\<lparr>meteo_on := True\<rparr>"] nz by simp
  have lt: "0.15 / fwidth self < 0.85 / fwidth self"
    using assms(1) by (simp add: divide_strict_right_mono)
  have lt': "0.15 / fwidth self * fwidth self < 0.85 / fwidth self * fwidth self"
    using nz by simp
  from m l b r t lt lt' show ?thesis unfolding off on by blast
qed

theorem margins_inches_witness:
  "\<exists>left_margin right_margin bottom_margin top_margin htot htop hlow wtot.
     margins Hydrograph_init =
       Inr (left_margin, right_margin, bottom_margin, top_margin, htot, htop, hlow, wtot) \<and>
     left_margin * 11 = 0.85 \<and> bottom_margin * 7 = 0.6 \<and>
     right_margin * 11 = 0.15 \<and> top_margin * 7 = 0.45"
proof -
  have h: "fwidth Hydrograph_init = 11" "fheight Hydrograph_init = 7"
    "\<not> meteo_on Hydrograph_init" "isGraphTitle Hydrograph_init = 1"
    by (simp_all add: Hydrograph_init_def)
  have p: "0 < fwidth Hydrograph_init" "0 < fheight Hydrograph_init"
    by (simp_all add: h)
  from margins_inches [OF p] show ?thesis
    unfolding h by (simp add: h) blast
qed

section \<open>Properties of the calendar conversions\<close>

lemma month_offset_bounds:
  fixes Mp :: int
  assumes "0 \<le> Mp" "Mp \<le> 11"
  shows "0 \<le> month_offset Mp" "month_offset Mp \<le> 337"
proof -
  show "0 \<le> month_offset Mp"
    unfolding month_offset_def using assms by (simp add: pos_imp_zdiv_nonneg_iff)
  have "(979 * Mp + 16) div 32 \<le> 10785 div 32"
    using assms by (intro zdiv_mono1) simp_all
  then show "month_offset Mp \<le> 337" unfolding month_offset_def by simp
qed

lemma yreg_month_start:
  fixes Yp T :: int
  assumes T: "0 \<le> T" "T \<le> 337"
  shows "yreg_of ((1461 * Yp) div 4 + T + 1 - 1364 - (((Yp + 184) div 100) * 3) div 4)
         = 1461 * Yp - (1461 * Yp) mod 4 + 4 * T + 3"
proof -
  define c where "c = (Yp + 184) div 100"
  define r where "r = (Yp + 184) mod 100"
  define e where "e = (c * 3) div 4"
  define n where "n = (c * 3) mod 4"
  define q where "q = (1461 * Yp) div 4"
  define m where "m = (1461 * Yp) mod 4"
  have Yp: "Yp + 184 = 100 * c + r" and r: "0 \<le> r" "r < 100"
    by (simp_all add: c_def r_def)
  have c3: "c * 3 = 4 * e + n" and n: "0 \<le> n" "n < 4"
    by (simp_all add: e_def n_def)
  have q4: "1461 * Yp = 4 * q + m" and m: "0 \<le> m" "m < 4"
    by (simp_all add: q_def m_def)
  have m0: "r = 0 \<Longrightarrow> m = 0"
  proof -
    assume "r = 0"
    with Yp have "1461 * Yp = 4 * (36525 * c - 67206)" by simp
    then show "m = 0" unfolding m_def by simp
  qed
  define jdn where "jdn = q + T + 1 - 1364 - e"
  define rho where "rho = 1461 * r + 4 * T + 1 - m + n"
  have Y1461: "1461 * Yp = 146100 * c + 1461 * r - 268824" using Yp by simp
  have eq: "jdn * 4 + 274277 = 146097 * c + rho"
    unfolding jdn_def rho_def using Y1461 c3 q4 by simp
  have rho: "0 \<le> rho" "rho < 146097"
  proof -
    show "0 \<le> rho"
    proof (cases "r = 0")
      case True
      with m0 T n show ?thesis by (simp add: rho_def)
    next
      case False
      with r have "1 \<le> r" by simp
      with T n m show ?thesis unfolding rho_def by linarith
    qed
    show "rho < 146097" unfolding rho_def using r T n m by linarith
  qed
  have a: "(jdn * 4 + 274277) div 146097 = c"
    using eq rho by (intro int_div_pos_eq [where r = rho]) simp_all
  have "yreg_of jdn = (e + jdn + 1363) * 4 + 3"
    unfolding yreg_of_def a e_def ..
  also have "\<dots> = 4 * q + 4 * T + 3" unfolding jdn_def by simp
  also have "\<dots> = 1461 * Yp - m + 4 * T + 3" using q4 by simp
  finally show ?thesis unfolding jdn_def q_def e_def c_def m_def .
qed

text \<open>The first day of a month, converted back, is in the same year and month.\<close>

lemma march_of_month_start:
  fixes Yp Mp :: int
  assumes Mp: "0 \<le> Mp" "Mp \<le> 11"
  shows "march_year (month_start Yp Mp) = Yp"
    and "march_day (month_start Yp Mp) = month_offset Mp"
proof -
  define T where "T = month_offset Mp"
  have T: "0 \<le> T" "T \<le> 337" unfolding T_def using month_offset_bounds [OF Mp] by simp_all
  define y where "y = yreg_of (month_start Yp Mp)"
  define m where "m = (1461 * Yp) mod 4"
  have m: "0 \<le> m" "m < 4" by (simp_all add: m_def)
  have y: "y = 1461 * Yp + (4 * T + 3 - m)"
    unfolding y_def m_def month_start_def T_def [symmetric]
    using yreg_month_start [OF T, of Yp] by simp
  have b: "0 \<le> 4 * T + 3 - m" "4 * T + 3 - m < 1461" using T m by linarith+
  have d: "y div 1461 = Yp"
    using y b by (intro int_div_pos_eq [where r = "4 * T + 3 - m"]) simp_all
  then show "march_year (month_start Yp Mp) = Yp" by (simp add: march_year_def y_def)
  have "y mod 1461 = 4 * T + 3 - m"
    using y b by (intro int_mod_pos_eq [where q = Yp]) simp_all
  moreover have "(4 * T + 3 - m) div 4 = T"
    using m by (intro int_div_pos_eq [where r = "3 - m"]) simp_all
  ultimately show "march_day (month_start Yp Mp) = month_offset Mp"
    by (simp add: march_day_def y_def T_def)
qed

lemma month_of_offset:
  fixes Mp :: int
  assumes "0 \<le> Mp" "Mp \<le> 11"
  shows "(month_offset Mp * 535 + 333) div 16384 = Mp"
    and "((month_offset Mp * 535 + 333) mod 16384) div 535 + 1 = 1"
proof -
  from assms have "Mp = 0 \<or> Mp = 1 \<or> Mp = 2 \<or> Mp = 3 \<or> Mp = 4 \<or> Mp = 5 \<or> Mp = 6 \<or> Mp = 7 \<or>
      Mp = 8 \<or> Mp = 9 \<or> Mp = 10 \<or> Mp = 11"
    by presburger
  then show "(month_offset Mp * 535 + 333) div 16384 = Mp"
    and "((month_offset Mp * 535 + 333) mod 16384) div 535 + 1 = 1"
    by (auto simp: month_offset_def)
qed

lemma civil_of_month_start:
  fixes Yp Mp :: int
  assumes Mp: "0 \<le> Mp" "Mp \<le> 11"
  shows "march_month (month_start Yp Mp) = Mp" and "civil_day (month_start Yp Mp) = 1"
  by (simp_all add: march_month_def civil_day_def march_of_month_start [OF Mp] month_of_offset [OF Mp])

text \<open>Later days are in later years, and within a year in later months.\<close>

lemma yreg_of_mono: "j1 \<le> j2 \<Longrightarrow> yreg_of j1 \<le> yreg_of j2"
proof -
  assume le: "j1 \<le> j2"
  have "(j1 * 4 + 274277) div 146097 \<le> (j2 * 4 + 274277) div 146097"
    using le by (intro zdiv_mono1) simp_all
  then have "((j1 * 4 + 274277) div 146097) * 3 div 4 \<le> ((j2 * 4 + 274277) div 146097) * 3 div 4"
    by (intro zdiv_mono1) simp_all
  with le show ?thesis unfolding yreg_of_def by simp
qed

lemma march_mono:
  assumes "j1 \<le> j2"
  shows "march_year j1 \<le> march_year j2"
    and "march_year j1 = march_year j2 \<Longrightarrow> march_day j1 \<le> march_day j2"
    and "march_year j1 = march_year j2 \<Longrightarrow> march_month j1 \<le> march_month j2"
proof -
  have y: "yreg_of j1 \<le> yreg_of j2" using assms by (rule yreg_of_mono)
  show "march_year j1 \<le> march_year j2"
    unfolding march_year_def using y by (intro zdiv_mono1) simp_all
  show d: "march_day j1 \<le> march_day j2" if "march_year j1 = march_year j2"
  proof -
    have "yreg_of j1 mod 1461 = yreg_of j1 - 1461 * march_year j1"
      unfolding march_year_def by (simp add: minus_mult_div_eq_mod)
    moreover have "yreg_of j2 mod 1461 = yreg_of j2 - 1461 * march_year j2"
      unfolding march_year_def by (simp add: minus_mult_div_eq_mod)
    ultimately have "yreg_of j1 mod 1461 \<le> yreg_of j2 mod 1461" using y that by simp
    then show ?thesis unfolding march_day_def by (intro zdiv_mono1) simp_all
  qed
  show "march_month j1 \<le> march_month j2" if "march_year j1 = march_year j2"
    unfolding march_month_def using d [OF that] by (intro zdiv_mono1) simp_all
qed

lemma march_le:
  assumes "j1 \<le> j2"
  shows "march_year j1 < march_year j2 \<or>
         (march_year j1 = march_year j2 \<and> march_month j1 \<le> march_month j2)"
  using march_mono(1,3) [OF assms] by linarith

lemma march_month_bounds: "0 \<le> march_month j" "march_month j \<le> 11"
proof -
  have d: "0 \<le> march_day j" "march_day j \<le> 365"
  proof -
    have "0 \<le> yreg_of j mod 1461" "yreg_of j mod 1461 < 1461" by simp_all
    then have "0 \<le> (yreg_of j mod 1461) div 4" "(yreg_of j mod 1461) div 4 \<le> 1460 div 4"
      by (simp add: pos_imp_zdiv_nonneg_iff, intro zdiv_mono1, simp_all)
    then show "0 \<le> march_day j" "march_day j \<le> 365"
      unfolding march_day_def by simp_all
  qed
  show "0 \<le> march_month j"
    unfolding march_month_def using d by (simp add: pos_imp_zdiv_nonneg_iff)
  have "(march_day j * 535 + 333) div 16384 \<le> (365 * 535 + 333) div 16384"
    using d by (intro zdiv_mono1) simp_all
  then show "march_month j \<le> 11" unfolding march_month_def by simp
qed

lemma civil_month_bounds: "1 \<le> civil_month j" "civil_month j \<le> 12"
  using march_month_bounds [of j] by (simp_all add: civil_month_def)

text \<open>The year and month counted from March, from the civil year and month.\<close>

lemma march_of_civil:
  "(if civil_month j \<le> 2 then civil_year j + 4716 - 1 else civil_year j + 4716) = march_year j"
  "(if civil_month j \<le> 2 then civil_month j + 9 else civil_month j - 3) = march_month j"
  using march_month_bounds [of j] by (simp_all add: civil_month_def civil_year_def)

lemma xldays_of_bounds: "\<lfloor>x\<rfloor> \<le> xldays_of x" "xldays_of x \<le> \<lfloor>x\<rfloor> + 1"
  by (simp_all add: xldays_of_def)

lemma xldays_of_int [simp]: "xldays_of (of_int n) = n"
  by (simp add: xldays_of_def py_round_def)

lemma xldate_as_tuple_civil:
  assumes "61 \<le> x" "xldays_of x < 2958466"
  shows "xldate_as_tuple x 0 =
           Inr (civil_year (xldays_of x + 2415019), civil_month (xldays_of x + 2415019),
                civil_day (xldays_of x + 2415019),
                fst (xl_time x), fst (snd (xl_time x)), snd (snd (xl_time x)))"
proof -
  have f: "61 \<le> \<lfloor>x\<rfloor>" using assms by (simp add: le_floor_iff)
  have d: "61 \<le> xldays_of x" "xldays_of x < 2958466"
    using f xldays_of_bounds [of x] assms(2) by linarith+
  have nz: "x \<noteq> 0" "\<not> x < 0" using assms by simp_all
  have c: "\<not> XLDAYS_TOO_LARGE 0 \<le> xldays_of x" "xldays_of x \<noteq> 0"
    "\<not> (xldays_of x < 61 \<and> (0::int) = 0)" "\<not> ((0::int) \<noteq> 0 \<and> (0::int) \<noteq> 1)"
    using d by (simp_all add: XLDAYS_TOO_LARGE_def)
  have j: "xldays_of x + JDN_delta 0 = xldays_of x + 2415019" by (simp add: JDN_delta_def)
  have "xldate_as_tuple x 0 =
      (if 10 \<le> march_month (xldays_of x + 2415019)
       then Inr (march_year (xldays_of x + 2415019) - 4715, march_month (xldays_of x + 2415019) - 9,
                 civil_day (xldays_of x + 2415019),
                 fst (xl_time x), fst (snd (xl_time x)), snd (snd (xl_time x)))
       else Inr (march_year (xldays_of x + 2415019) - 4716, march_month (xldays_of x + 2415019) + 3,
                 civil_day (xldays_of x + 2415019),
                 fst (xl_time x), fst (snd (xl_time x)), snd (snd (xl_time x))))"
    unfolding xldate_as_tuple_def Let_def xl_seconds_def [symmetric]
    unfolding xldays_of_def [unfolded xl_seconds_def [symmetric], symmetric]
    apply (simp only: nz c j if_False)
    apply (simp only: civil_day_def march_year_def march_month_def march_day_def yreg_of_def xl_time_def)
    apply (simp only: fst_conv snd_conv if_distrib [of fst] if_distrib [of snd] if_distrib [of "\<lambda>p. fst (snd p)"] if_distrib [of "\<lambda>p. snd (snd p)"])
    done
  then show ?thesis by (simp add: civil_year_def civil_month_def)
qed

lemma xl_time_int [simp]: "xl_time (of_int n) = (0, 0, 0)"
  by (simp add: xl_time_def xl_seconds_def py_round_def)

lemma xldate_as_tuple_int:
  assumes "61 \<le> n" "n < 2958466"
  shows "xldate_as_tuple (of_int n) 0 =
           Inr (civil_year (n + 2415019), civil_month (n + 2415019), civil_day (n + 2415019), 0, 0, 0)"
proof -
  have "61 \<le> (of_int n :: real)" "xldays_of (of_int n) < 2958466" using assms by simp_all
  from xldate_as_tuple_civil [OF this] show ?thesis by simp
qed

lemma days_in_month_ge: "0 \<le> k \<Longrightarrow> k < 12 \<Longrightarrow> 28 \<le> days_in_month ! nat k"
proof -
  assume "0 \<le> k" "k < 12"
  then have "k = 0 \<or> k = 1 \<or> k = 2 \<or> k = 3 \<or> k = 4 \<or> k = 5 \<or> k = 6 \<or> k = 7 \<or>
      k = 8 \<or> k = 9 \<or> k = 10 \<or> k = 11"
    by presburger
  then show ?thesis by (auto simp: days_in_month_def)
qed

lemma xldate_from_first_of_month:
  assumes "1900 \<le> year" "year \<le> 9999" "1 \<le> month" "month \<le> 12"
  shows "xldate_from_date_tuple (year, month, 1) 0 =
     (if month_start (if month \<le> 2 then year + 4716 - 1 else year + 4716)
                     (if month \<le> 2 then month + 9 else month - 3) - 2415019 < 61
      then (if month_start (if month \<le> 2 then year + 4716 - 1 else year + 4716)
                     (if month \<le> 2 then month + 9 else month - 3) - 2415019 \<le> 0
            then Inl XLDateBadTuple else Inl XLDateAmbiguous)
      else Inr (of_int (month_start (if month \<le> 2 then year + 4716 - 1 else year + 4716)
                     (if month \<le> 2 then month + 9 else month - 3) - 2415019)))"
proof -
  have "28 \<le> days_in_month ! nat (month - 1)"
    using assms by (intro days_in_month_ge) simp_all
  then have d: "\<not> ((1::int) < 1 \<or> days_in_month ! nat (month - 1) < 1 \<and>
               \<not> ((1::int) = 29 \<and> month = 2 \<and> xl_leap year))" by simp
  have c: "\<not> ((0::int) \<noteq> 0 \<and> (0::int) \<noteq> 1)" "\<not> (year = 0 \<and> month = 0 \<and> (1::int) = 0)"
    "\<not> \<not> (1900 \<le> year \<and> year \<le> 9999)" "\<not> \<not> (1 \<le> month \<and> month \<le> 12)"
    using assms by simp_all
  define Yp where "Yp = (if month \<le> 2 then year + 4716 - 1 else year + 4716)"
  define Mp where "Mp = (if month \<le> 2 then month + 9 else month - 3)"
  have j: "1461 * Yp div 4 + (979 * Mp + 16) div 32 + 1 - 1364 - (Yp + 184) div 100 * 3 div 4
        - JDN_delta 0 = month_start Yp Mp - 2415019"
    by (simp add: month_start_def month_offset_def JDN_delta_def)
  have "xldate_from_date_tuple (year, month, 1) 0 =
      (if month_start Yp Mp - 2415019 \<le> 0 then Inl XLDateBadTuple
       else if month_start Yp Mp - 2415019 < 61 \<and> (0::int) = 0 then Inl XLDateAmbiguous
       else Inr (of_int (month_start Yp Mp - 2415019)))"
    unfolding xldate_from_date_tuple_def Let_def prod.case Yp_def [symmetric] Mp_def [symmetric]
    by (simp only: c d if_False j)
  then show ?thesis unfolding Yp_def Mp_def by auto
qed

lemma march_year_61: "march_year 2415080 = 6616" "march_year 2415079 = 6615"
  by (simp_all add: march_year_def yreg_of_def)

lemma march_end_9998: "march_year 5373119 = 14714" "march_month 5373119 = 9"
  by (simp_all add: march_year_def march_month_def march_day_def yreg_of_def)

lemma march_november_9999: "march_year 5373453 = 14715" "march_month 5373453 = 8"
  by (simp_all add: march_year_def march_month_def march_day_def yreg_of_def)

lemma march_too_large: "march_year 5373485 = 14715" "march_month 5373485 = 10"
  by (simp_all add: march_year_def march_month_def march_day_def yreg_of_def)

text \<open>A month that starts after the month of a day starts after the day.\<close>

lemma month_start_after:
  assumes Mp: "0 \<le> Mp" "Mp \<le> 11"
    and after: "march_year j < Yp \<or> (march_year j = Yp \<and> march_month j < Mp)"
  shows "j < month_start Yp Mp"
proof (rule ccontr)
  assume "\<not> j < month_start Yp Mp"
  then have "month_start Yp Mp \<le> j" by simp
  from march_le [OF this] have "Yp < march_year j \<or> (Yp = march_year j \<and> Mp \<le> march_month j)"
    by (simp add: march_of_month_start [OF Mp] civil_of_month_start [OF Mp])
  with after show False by linarith
qed

text \<open>A month that starts before the month of a day starts before the day.\<close>

lemma month_start_before:
  assumes Mp: "0 \<le> Mp" "Mp \<le> 11"
    and before: "Yp < march_year j \<or> (Yp = march_year j \<and> Mp < march_month j)"
  shows "month_start Yp Mp < j"
proof (rule ccontr)
  assume "\<not> month_start Yp Mp < j"
  then have "j \<le> month_start Yp Mp" by simp
  from march_le [OF this] have "march_year j < Yp \<or> (march_year j = Yp \<and> march_month j \<le> Mp)"
    by (simp add: march_of_month_start [OF Mp] civil_of_month_start [OF Mp])
  with before show False by linarith
qed

text \<open>Bounds of the year for the serial days that \<^verbatim>\<open>xlrd\<close> accepts.\<close>

lemma march_year_lower: "2415080 \<le> j \<Longrightarrow> 6616 \<le> march_year j"
  using march_mono(1) [of 2415080 j] by (simp add: march_year_61)

lemma civil_year_lower: "2415080 \<le> j \<Longrightarrow> 1900 \<le> civil_year j"
  using march_year_lower [of j] by (simp add: civil_year_def)

lemma civil_year_upper_9998: "j \<le> 5373119 \<Longrightarrow> civil_year j \<le> 9998"
  using march_le [of j 5373119] by (auto simp: march_end_9998 civil_year_def)

lemma civil_before_december_9999:
  assumes "j \<le> 5373453"
  shows "civil_year j < 9999 \<or> (civil_year j = 9999 \<and> civil_month j \<le> 11)"
  using march_le [OF assms] march_month_bounds [of j]
  by (auto simp: march_november_9999 civil_year_def civil_month_def)

lemma month_start_lower:
  assumes "0 \<le> Mp" "Mp \<le> 11" "6616 \<le> Yp"
  shows "2415080 \<le> month_start Yp Mp"
proof -
  have "2415079 < month_start Yp Mp"
    using assms by (intro month_start_after) (simp_all add: march_year_61)
  then show ?thesis by simp
qed

lemma month_start_upper:
  assumes "0 \<le> Mp" "Mp \<le> 11" "Yp < 14715 \<or> (Yp = 14715 \<and> Mp < 10)"
  shows "month_start Yp Mp < 5373485"
  using assms by (intro month_start_before) (simp_all add: march_too_large)

lemma march_end_9999: "march_year 5373484 = 14715" "march_month 5373484 = 9"
  by (simp_all add: march_year_def march_month_def march_day_def yreg_of_def)

lemma march_october_9999: "march_year 5373423 = 14715" "march_month 5373423 = 7"
  by (simp_all add: march_year_def march_month_def march_day_def yreg_of_def)

lemma civil_year_upper: "j < 5373485 \<Longrightarrow> civil_year j \<le> 9999"
  using march_le [of j 5373484] by (auto simp: march_end_9999 civil_year_def)

lemma civil_before_november_9999:
  assumes "j \<le> 5373423"
  shows "civil_year j < 9999 \<or> (civil_year j = 9999 \<and> civil_month j \<le> 10)"
  using march_le [OF assms] march_month_bounds [of j]
  by (auto simp: march_october_9999 civil_year_def civil_month_def)

text \<open>The first day of a month converts to a serial day and back.\<close>

lemma first_of_month_serial:
  assumes Mp: "0 \<le> Mp" "Mp \<le> 11"
    and lo: "6616 \<le> Yp" and hi: "Yp < 14715 \<or> (Yp = 14715 \<and> Mp < 10)"
  defines "year \<equiv> (if 10 \<le> Mp then Yp - 4715 else Yp - 4716)"
    and "month \<equiv> (if 10 \<le> Mp then Mp - 9 else Mp + 3)"
  shows "xldate_from_date_tuple (year, month, 1) 0 = Inr (of_int (month_start Yp Mp - 2415019))"
    and "xldate_as_tuple (of_int (month_start Yp Mp - 2415019)) 0 = Inr (year, month, 1, 0, 0, 0)"
    and "61 \<le> month_start Yp Mp - 2415019" and "month_start Yp Mp - 2415019 < 2958466"
proof -
  have r: "1900 \<le> year" "year \<le> 9999" "1 \<le> month" "month \<le> 12"
    using Mp lo hi by (auto simp: year_def month_def)
  have m: "(if month \<le> 2 then year + 4716 - 1 else year + 4716) = Yp"
    "(if month \<le> 2 then month + 9 else month - 3) = Mp"
    using Mp by (auto simp: year_def month_def)
  show b: "61 \<le> month_start Yp Mp - 2415019"
    using month_start_lower [OF Mp lo] by simp
  show u: "month_start Yp Mp - 2415019 < 2958466"
    using month_start_upper [OF Mp hi] by simp
  show "xldate_from_date_tuple (year, month, 1) 0 = Inr (of_int (month_start Yp Mp - 2415019))"
    using b by (simp add: xldate_from_first_of_month [OF r] m)
  have "civil_year (month_start Yp Mp) = year" "civil_month (month_start Yp Mp) = month"
    by (simp_all add: civil_year_def civil_month_def year_def month_def
        march_of_month_start [OF Mp] civil_of_month_start [OF Mp])
  then show "xldate_as_tuple (of_int (month_start Yp Mp - 2415019)) 0 = Inr (year, month, 1, 0, 0, 0)"
    using xldate_as_tuple_int [OF b u] by (simp add: civil_of_month_start [OF Mp])
qed

lemma month_after_march:
  "month_after (civil_year j) (civil_month j) =
     ((if 10 \<le> snd (march_after j) then fst (march_after j) - 4715 else fst (march_after j) - 4716),
      (if 10 \<le> snd (march_after j) then snd (march_after j) - 9 else snd (march_after j) + 3), 1)"
  using march_month_bounds [of j]
  by (auto simp: month_after_def march_after_def civil_year_def civil_month_def)

lemma march_after_bounds:
  "0 \<le> snd (march_after j)" "snd (march_after j) \<le> 11" "march_year j \<le> fst (march_after j)"
  "march_year j < fst (march_after j) \<or>
     (march_year j = fst (march_after j) \<and> march_month j < snd (march_after j))"
  using march_month_bounds [of j] by (auto simp: march_after_def)

section \<open>Properties of the time fit\<close>

lemma py_index_first: "xs \<noteq> [] \<Longrightarrow> py_index xs 0 = Inr (hd xs)"
  by (cases xs) (simp_all add: py_index_def)

lemma py_index_last: "xs \<noteq> [] \<Longrightarrow> py_index xs (- 1) = Inr (last xs)"
proof -
  assume ne: "xs \<noteq> []"
  then have "nat (int (length xs) + - 1) = length xs - 1" by (cases xs) simp_all
  with ne show ?thesis
    by (cases xs) (simp_all add: py_index_def last_conv_nth del: last.simps)
qed

text \<open>
  \<^verbatim>\<open>best_fit_time\<close> in closed form, for a first and a last serial day that \<^verbatim>\<open>xlrd\<close>
  converts and a last day before December 9999.
\<close>

lemma best_fit_time_value:
  assumes ne: "TIME \<noteq> []"
    and h: "61 \<le> hd TIME" "xldays_of (hd TIME) < 2958466"
    and l: "61 \<le> last TIME" "xldays_of (last TIME) < 2958466"
    and dec: "civil_year (xldays_of (last TIME) + 2415019) < 9999 \<or>
              civil_month (xldays_of (last TIME) + 2415019) \<le> 11"
  defines "j0 \<equiv> xldays_of (hd TIME) + 2415019"
    and "j1 \<equiv> xldays_of (last TIME) + 2415019"
  shows "best_fit_time self TIME =
     (Inr ((civil_year j0, civil_month j0, 1), month_after (civil_year j1) (civil_month j1)),
      self\<lparr>TIMEmin := of_int (month_start (march_year j0) (march_month j0) - 2415019),
            TIMEmax := of_int (month_start (fst (march_after j1)) (snd (march_after j1)) - 2415019)\<rparr>)"
proof -
  have lo: "2415080 \<le> j0" "2415080 \<le> j1"
    using h(1) l(1) xldays_of_bounds(1) [of "hd TIME"] xldays_of_bounds(1) [of "last TIME"]
    unfolding j0_def j1_def by (simp_all add: le_floor_iff) linarith+
  have up: "j0 < 5373485" "j1 < 5373485" using h(2) l(2) unfolding j0_def j1_def by simp_all
  have t0: "xldate_as_tuple (hd TIME) 0 =
      Inr (civil_year j0, civil_month j0, civil_day j0,
           fst (xl_time (hd TIME)), fst (snd (xl_time (hd TIME))), snd (snd (xl_time (hd TIME))))"
    unfolding j0_def by (rule xldate_as_tuple_civil [OF h])
  have t1: "xldate_as_tuple (last TIME) 0 =
      Inr (civil_year j1, civil_month j1, civil_day j1,
           fst (xl_time (last TIME)), fst (snd (xl_time (last TIME))), snd (snd (xl_time (last TIME))))"
    unfolding j1_def by (rule xldate_as_tuple_civil [OF l])
  have y0: "6616 \<le> march_year j0" "6616 \<le> march_year j1"
    using lo by (simp_all add: march_year_lower)
  have hi0: "march_year j0 < 14715 \<or> (march_year j0 = 14715 \<and> march_month j0 < 10)"
    using march_le [of j0 5373484] up(1) by (auto simp: march_end_9999)
  have d0: "xldate_from_date_tuple (civil_year j0, civil_month j0, 1) 0 =
      Inr (of_int (month_start (march_year j0) (march_month j0) - 2415019))"
    using first_of_month_serial(1) [OF march_month_bounds y0(1) hi0]
    by (simp add: civil_year_def civil_month_def)
  have y1: "6616 \<le> fst (march_after j1)" using y0(2) march_after_bounds(3) [of j1] by simp
  have hi1: "fst (march_after j1) < 14715 \<or>
      (fst (march_after j1) = 14715 \<and> snd (march_after j1) < 10)"
  proof -
    have a: "march_year j1 < 14715 \<or> (march_year j1 = 14715 \<and> march_month j1 \<le> 9)"
      using march_le [of j1 5373484] up(2) by (auto simp: march_end_9999)
    have b: "march_year j1 = 14715 \<Longrightarrow> march_month j1 \<le> 8"
      using dec [folded j1_def] a march_month_bounds [of j1]
      by (auto simp: civil_year_def civil_month_def split: if_splits)
    from a b march_month_bounds [of j1] show ?thesis by (auto simp: march_after_def)
  qed
  have d1: "xldate_from_date_tuple (month_after (civil_year j1) (civil_month j1)) 0 =
      Inr (of_int (month_start (fst (march_after j1)) (snd (march_after j1)) - 2415019))"
    using first_of_month_serial(1) [OF march_after_bounds(1,2) y1 hi1]
    by (simp add: month_after_march)
  have m: "(if 12 < civil_month j1 + 1 then (civil_year j1 + 1, 1, 1)
            else (civil_year j1, civil_month j1 + 1, 1)) = month_after (civil_year j1) (civil_month j1)"
    by (simp add: month_after_def)
  show ?thesis
    unfolding best_fit_time_def Let_def
    by (simp only: py_index_first [OF ne] py_index_last [OF ne] sum.case prod.case t0 t1 d0 m d1)
qed

lemma xldays_of_less: "x < of_int n \<Longrightarrow> xldays_of x \<le> n"
  using xldays_of_bounds(2) [of x] by (simp add: floor_less_iff [symmetric]) 

lemma less_next_day: "x < of_int (xldays_of x) + 1"
proof -
  have "x < of_int \<lfloor>x\<rfloor> + 1" by linarith
  moreover have "(of_int \<lfloor>x\<rfloor> :: real) \<le> of_int (xldays_of x)"
    using xldays_of_bounds(1) [of x] by simp
  ultimately show ?thesis by linarith
qed

text \<open>
  Claim C2. For a non-empty sequence of serial days whose first and last elements are
  days that \<^verbatim>\<open>xlrd\<close> converts (from 61, the first of March 1900) before the last days of
  November 9999 (2958434), \<^verbatim>\<open>best_fit_time\<close> returns as start the first day of the month
  of the first element and as end the first day of the month after the month of the last
  element, January of the next year after a December. \<^verbatim>\<open>TIMEmin\<close> and \<^verbatim>\<open>TIMEmax\<close> are the
  serial days of the two dates, and the last element is before \<^verbatim>\<open>TIMEmax\<close>.
\<close>

theorem best_fit_time_months:
  assumes "TIME \<noteq> []"
    and "61 \<le> hd TIME" and "hd TIME < 2958434"
    and "61 \<le> last TIME" and "last TIME < 2958434"
  shows "\<exists>y0 m0 d0 h0 mi0 s0 y1 m1 d1 h1 mi1 s1 y2 m2 self'.
           xldate_as_tuple (hd TIME) 0 = Inr (y0, m0, d0, h0, mi0, s0) \<and>
           xldate_as_tuple (last TIME) 0 = Inr (y1, m1, d1, h1, mi1, s1) \<and>
           y2 = (if m1 = 12 then y1 + 1 else y1) \<and>
           m2 = (if m1 = 12 then 1 else m1 + 1) \<and>
           best_fit_time self TIME = (Inr ((y0, m0, 1), (y2, m2, 1)), self') \<and>
           xldate_as_tuple (TIMEmin self') 0 = Inr (y0, m0, 1, 0, 0, 0) \<and>
           xldate_as_tuple (TIMEmax self') 0 = Inr (y2, m2, 1, 0, 0, 0) \<and>
           last TIME < TIMEmax self'"
proof -
  define j0 where "j0 = xldays_of (hd TIME) + 2415019"
  define j1 where "j1 = xldays_of (last TIME) + 2415019"
  have x0: "xldays_of (hd TIME) \<le> 2958434" using assms(3) xldays_of_less [of "hd TIME" 2958434] by simp
  have x1: "xldays_of (last TIME) \<le> 2958434" using assms(5) xldays_of_less [of "last TIME" 2958434] by simp
  have h: "61 \<le> hd TIME" "xldays_of (hd TIME) < 2958466" using assms(2) x0 by simp_all
  have l: "61 \<le> last TIME" "xldays_of (last TIME) < 2958466" using assms(4) x1 by simp_all
  have "j1 \<le> 5373453" using x1 by (simp add: j1_def)
  from civil_before_december_9999 [OF this]
  have dec: "civil_year (xldays_of (last TIME) + 2415019) < 9999 \<or>
      civil_month (xldays_of (last TIME) + 2415019) \<le> 11"
    unfolding j1_def by auto
  define tmin where "tmin = month_start (march_year j0) (march_month j0) - 2415019"
  define tmax where "tmax = month_start (fst (march_after j1)) (snd (march_after j1)) - 2415019"
  define self' where "self' = self\<lparr>TIMEmin := of_int tmin, TIMEmax := of_int tmax\<rparr>"
  have res: "best_fit_time self TIME =
      (Inr ((civil_year j0, civil_month j0, 1), month_after (civil_year j1) (civil_month j1)), self')"
    unfolding self'_def tmin_def tmax_def j0_def j1_def
    by (rule best_fit_time_value [OF assms(1) h l dec])
  have t0: "xldate_as_tuple (hd TIME) 0 =
      Inr (civil_year j0, civil_month j0, civil_day j0,
           fst (xl_time (hd TIME)), fst (snd (xl_time (hd TIME))), snd (snd (xl_time (hd TIME))))"
    unfolding j0_def by (rule xldate_as_tuple_civil [OF h])
  have t1: "xldate_as_tuple (last TIME) 0 =
      Inr (civil_year j1, civil_month j1, civil_day j1,
           fst (xl_time (last TIME)), fst (snd (xl_time (last TIME))), snd (snd (xl_time (last TIME))))"
    unfolding j1_def by (rule xldate_as_tuple_civil [OF l])
  have lo: "2415080 \<le> j0" "2415080 \<le> j1"
    using h(1) l(1) xldays_of_bounds(1) [of "hd TIME"] xldays_of_bounds(1) [of "last TIME"]
    unfolding j0_def j1_def by (simp_all add: le_floor_iff) linarith+
  have y0: "6616 \<le> march_year j0" "6616 \<le> march_year j1"
    using lo by (simp_all add: march_year_lower)
  have hi0: "march_year j0 < 14715 \<or> (march_year j0 = 14715 \<and> march_month j0 < 10)"
    using march_le [of j0 5373484] x0 by (auto simp: march_end_9999 j0_def)
  have r0: "xldate_as_tuple (of_int tmin) 0 = Inr (civil_year j0, civil_month j0, 1, 0, 0, 0)"
    unfolding tmin_def
    using first_of_month_serial(2) [OF march_month_bounds y0(1) hi0]
    by (simp add: civil_year_def civil_month_def)
  have y1: "6616 \<le> fst (march_after j1)" using y0(2) march_after_bounds(3) [of j1] by simp
  have hi1: "fst (march_after j1) < 14715 \<or>
      (fst (march_after j1) = 14715 \<and> snd (march_after j1) < 10)"
  proof -
    have "march_year j1 < 14715 \<or> (march_year j1 = 14715 \<and> march_month j1 \<le> 8)"
      using march_le [OF \<open>j1 \<le> 5373453\<close>] by (auto simp: march_november_9999)
    with march_month_bounds [of j1] show ?thesis by (auto simp: march_after_def)
  qed
  have r1: "xldate_as_tuple (of_int tmax) 0 =
      Inr (fst (month_after (civil_year j1) (civil_month j1)),
           fst (snd (month_after (civil_year j1) (civil_month j1))), 1, 0, 0, 0)"
    unfolding tmax_def
    using first_of_month_serial(2) [OF march_after_bounds(1,2) y1 hi1]
    by (simp add: month_after_march)
  have "j1 < month_start (fst (march_after j1)) (snd (march_after j1))"
    by (rule month_start_after [OF march_after_bounds(1,2,4)])
  then have "xldays_of (last TIME) + 1 \<le> tmax" unfolding tmax_def j1_def by simp
  then have "of_int (xldays_of (last TIME)) + 1 \<le> (of_int tmax :: real)"
    by (metis of_int_1 of_int_add of_int_le_iff)
  with less_next_day [of "last TIME"] have after: "last TIME < of_int tmax" by linarith
  have f: "TIMEmin self' = of_int tmin" "TIMEmax self' = of_int tmax" by (simp_all add: self'_def)
  define y2 where "y2 = (if civil_month j1 = 12 then civil_year j1 + 1 else civil_year j1)"
  define m2 where "m2 = (if civil_month j1 = 12 then 1 else civil_month j1 + 1)"
  have ma: "month_after (civil_year j1) (civil_month j1) = (y2, m2, 1)"
    using civil_month_bounds [of j1] by (auto simp: month_after_def y2_def m2_def)
  have res': "best_fit_time self TIME = (Inr ((civil_year j0, civil_month j0, 1), (y2, m2, 1)), self')"
    using res by (simp add: ma)
  have r0': "xldate_as_tuple (TIMEmin self') 0 = Inr (civil_year j0, civil_month j0, 1, 0, 0, 0)"
    using r0 by (simp add: f)
  have r1': "xldate_as_tuple (TIMEmax self') 0 = Inr (y2, m2, 1, 0, 0, 0)"
    using r1 by (simp add: f ma)
  have after': "last TIME < TIMEmax self'" using after by (simp add: f)
  show ?thesis
    apply (rule exI)+
    apply (intro conjI)
          apply (rule t0)
         apply (rule t1)
        apply (rule y2_def)
       apply (rule m2_def)
      apply (rule res')
     apply (rule r0')
    apply (rule r1')
    apply (rule after')
    done
qed

theorem best_fit_time_months_witness:
  "xldate_as_tuple 36540 0 = Inr (2000, 1, 15, 0, 0, 0) \<and>
   xldate_as_tuple 37245 0 = Inr (2001, 12, 20, 0, 0, 0) \<and>
   fst (best_fit_time Hydrograph_init [36540, 37000.5, 37245]) = Inr ((2000, 1, 1), (2002, 1, 1))"
proof -
  have e0: "xldate_as_tuple 36540 0 = Inr (2000, 1, 15, 0, 0, 0)"
    by (simp add: xldate_as_tuple_def Let_def py_round_def XLDAYS_TOO_LARGE_def JDN_delta_def)
  have e1: "xldate_as_tuple 37245 0 = Inr (2001, 12, 20, 0, 0, 0)"
    by (simp add: xldate_as_tuple_def Let_def py_round_def XLDAYS_TOO_LARGE_def JDN_delta_def)
  have "[36540, 37000.5, 37245 :: real] \<noteq> []"
    "61 \<le> hd [36540, 37000.5, 37245 :: real]" "hd [36540, 37000.5, 37245 :: real] < 2958434"
    "61 \<le> last [36540, 37000.5, 37245 :: real]" "last [36540, 37000.5, 37245 :: real] < 2958434"
    by simp_all
  from best_fit_time_months [OF this, of Hydrograph_init]
  have "fst (best_fit_time Hydrograph_init [36540, 37000.5, 37245]) = Inr ((2000, 1, 1), (2002, 1, 1))"
    by (auto simp: e0 e1)
  with e0 e1 show ?thesis by simp
qed

section \<open>A second fit on fitted bounds\<close>

text \<open>The fit for a given best candidate, datum 0.\<close>

lemma best_fit_waterlvl_mbgs:
  assumes ds: "wldset self = Some ds"
    and vs: "waterlvl_values self ds = map Num rs"
    and ne: "rs \<noteq> []"
    and grid: "NZGrid self \<noteq> 5"
    and datum: "WLdatum self = 0"
    and best: "\<And>s. s \<in> set candidate_steps \<Longrightarrow>
        \<forall>c\<in>set candidate_steps.
          \<bar>s - (Max (set rs) - Min (set rs)) / of_int (NZGrid self - 5)\<bar>
          \<le> \<bar>c - (Max (set rs) - Min (set rs)) / of_int (NZGrid self - 5)\<bar> \<Longrightarrow> s = s0"
  shows "best_fit_waterlvl self =
     (Inr (Num s0, Num (s0 * of_int \<lceil>Max (set rs) / s0\<rceil>)),
      self\<lparr>WLscale := Num s0, WLmin := Num (s0 * of_int \<lceil>Max (set rs) / s0\<rceil>)\<rparr>)"
proof -
  from best_fit_waterlvl_finite [OF ds vs ne grid]
  obtain i where i: "i < length candidate_steps"
    and least: "\<forall>j<length candidate_steps.
              \<bar>candidate_steps ! i - (Max (set rs) - Min (set rs)) / of_int (NZGrid self - 5)\<bar>
              \<le> \<bar>candidate_steps ! j - (Max (set rs) - Min (set rs)) / of_int (NZGrid self - 5)\<bar>"
    and res: "best_fit_waterlvl self =
             (let s = candidate_steps ! i in
              if WLdatum self = 0 then
                (Inr (Num s, Num (s * of_int \<lceil>Max (set rs) / s\<rceil>)),
                 self\<lparr>WLscale := Num s, WLmin := Num (s * of_int \<lceil>Max (set rs) / s\<rceil>)\<rparr>)
              else if WLdatum self = 1 then
                (Inr (Num s, Num (s * of_int \<lfloor>Min (set rs) / s\<rfloor>)),
                 self\<lparr>WLscale := Num s, WLmin := Num (s * of_int \<lfloor>Min (set rs) / s\<rfloor>)\<rparr>)
              else (Inl UnboundLocalError, self\<lparr>WLscale := Num s\<rparr>))"
    by blast
  have mem: "candidate_steps ! i \<in> set candidate_steps" using i by simp
  have "\<forall>c\<in>set candidate_steps.
          \<bar>candidate_steps ! i - (Max (set rs) - Min (set rs)) / of_int (NZGrid self - 5)\<bar>
          \<le> \<bar>c - (Max (set rs) - Min (set rs)) / of_int (NZGrid self - 5)\<bar>"
    using least by (auto simp: in_set_conv_nth)
  from best [OF mem this] have "candidate_steps ! i = s0" .
  with res datum show ?thesis by (simp add: Let_def)
qed

lemma example_refit_first:
  "best_fit_waterlvl example_refit =
     (Inr (Num 3.3, Num 13.2), example_refit\<lparr>WLscale := Num 3.3, WLmin := Num 13.2\<rparr>)"
proof -
  have v: "wldset example_refit = Some \<lparr>WL = [Num 0, Num 10], Elevation = Num 100\<rparr>"
    "waterlvl_values example_refit \<lparr>WL = [Num 0, Num 10], Elevation = Num 100\<rparr> = map Num [0, 10]"
    "[0, 10 :: real] \<noteq> []" "NZGrid example_refit \<noteq> 5" "WLdatum example_refit = 0"
    by (simp_all add: example_refit_def Hydrograph_init_def waterlvl_values_def)
  have t: "(Max (set [0, 10 :: real]) - Min (set [0, 10])) / of_int (NZGrid example_refit - 5) = 10 / 3"
    by (simp add: example_refit_def Hydrograph_init_def)
  have "best_fit_waterlvl example_refit =
     (Inr (Num (33/10), Num (33/10 * of_int \<lceil>Max (set [0, 10 :: real]) / (33/10)\<rceil>)),
      example_refit\<lparr>WLscale := Num (33/10),
        WLmin := Num (33/10 * of_int \<lceil>Max (set [0, 10 :: real]) / (33/10)\<rceil>)\<rparr>)"
    by (rule best_fit_waterlvl_mbgs [OF v]) (simp only: t, rule nearest_to_ten_thirds)
  moreover have "\<lceil>Max (set [0, 10 :: real]) / (33/10)\<rceil> = 4" by (simp add: ceiling_eq_iff)
  ultimately show ?thesis by simp
qed

lemma example_refit_limits:
  "setup_waterlvl_scale (example_refit\<lparr>WLscale := Num 3.3, WLmin := Num 13.2\<rparr>)
     = (Num (- 6.6), Num 13.2)"
  by (simp add: setup_waterlvl_scale_def example_refit_def Hydrograph_init_def fsub_def)

lemma example_refit_second:
  "fst (best_fit_waterlvl (example_refit\<lparr>WLscale := Num 3.3, WLmin := Num 13.2,
      wldset := Some \<lparr>WL = [Num (- 6.6), Num 13.2], Elevation = Num 100\<rparr>\<rparr>))
   = Inr (Num 5, Num 15)"
proof -
  let ?h = "example_refit\<lparr>WLscale := Num 3.3, WLmin := Num 13.2,
      wldset := Some \<lparr>WL = [Num (- 6.6), Num 13.2], Elevation = Num 100\<rparr>\<rparr>"
  have v: "wldset ?h = Some \<lparr>WL = [Num (- 6.6), Num 13.2], Elevation = Num 100\<rparr>"
    "waterlvl_values ?h \<lparr>WL = [Num (- 6.6), Num 13.2], Elevation = Num 100\<rparr> = map Num [- 6.6, 13.2]"
    "[- 6.6, 13.2 :: real] \<noteq> []" "NZGrid ?h \<noteq> 5" "WLdatum ?h = 0"
    by (simp_all add: example_refit_def Hydrograph_init_def waterlvl_values_def)
  have t: "(Max (set [- 6.6, 13.2 :: real]) - Min (set [- 6.6, 13.2])) / of_int (NZGrid ?h - 5) = 6.6"
    by (simp add: example_refit_def Hydrograph_init_def)
  have "best_fit_waterlvl ?h =
     (Inr (Num 5, Num (5 * of_int \<lceil>Max (set [- 6.6, 13.2 :: real]) / 5\<rceil>)),
      ?h\<lparr>WLscale := Num 5, WLmin := Num (5 * of_int \<lceil>Max (set [- 6.6, 13.2 :: real]) / 5\<rceil>)\<rparr>)"
  proof (rule best_fit_waterlvl_mbgs [OF v])
    fix s assume "s \<in> set candidate_steps"
      and "\<forall>c\<in>set candidate_steps.
        \<bar>s - (Max (set [- 6.6, 13.2 :: real]) - Min (set [- 6.6, 13.2])) / of_int (NZGrid ?h - 5)\<bar>
        \<le> \<bar>c - (Max (set [- 6.6, 13.2 :: real]) - Min (set [- 6.6, 13.2])) / of_int (NZGrid ?h - 5)\<bar>"
    then show "s = 5" unfolding t by (rule nearest_saturates_high) simp
  qed
  moreover have "\<lceil>Max (set [- 6.6, 13.2 :: real]) / 5\<rceil> = 3" by (simp add: ceiling_eq_iff)
  ultimately show ?thesis by simp
qed

lemma as_tuple_36540: "xldate_as_tuple 36540 0 = Inr (2000, 1, 15, 0, 0, 0)"
  by (simp add: xldate_as_tuple_def Let_def py_round_def XLDAYS_TOO_LARGE_def JDN_delta_def)

lemma as_tuple_37245: "xldate_as_tuple 37245 0 = Inr (2001, 12, 20, 0, 0, 0)"
  by (simp add: xldate_as_tuple_def Let_def py_round_def XLDAYS_TOO_LARGE_def JDN_delta_def)

lemma as_tuple_36526: "xldate_as_tuple 36526 0 = Inr (2000, 1, 1, 0, 0, 0)"
  by (simp add: xldate_as_tuple_def Let_def py_round_def XLDAYS_TOO_LARGE_def JDN_delta_def)

lemma as_tuple_37257: "xldate_as_tuple 37257 0 = Inr (2002, 1, 1, 0, 0, 0)"
  by (simp add: xldate_as_tuple_def Let_def py_round_def XLDAYS_TOO_LARGE_def JDN_delta_def)

lemma from_tuple_2000_1: "xldate_from_date_tuple (2000, 1, 1) 0 = Inr 36526"
  by (simp add: xldate_from_date_tuple_def Let_def JDN_delta_def days_in_month_def)

lemma from_tuple_2002_1: "xldate_from_date_tuple (2002, 1, 1) 0 = Inr 37257"
  by (simp add: xldate_from_date_tuple_def Let_def JDN_delta_def days_in_month_def)

lemma from_tuple_2002_2: "xldate_from_date_tuple (2002, 2, 1) 0 = Inr 37288"
  by (simp add: xldate_from_date_tuple_def Let_def JDN_delta_def days_in_month_def)

lemma example_time_first:
  "best_fit_time self [36540, 37245] =
     (Inr ((2000, 1, 1), (2002, 1, 1)), self\<lparr>TIMEmin := 36526, TIMEmax := 37257\<rparr>)"
  by (simp add: best_fit_time_def py_index_def as_tuple_36540 as_tuple_37245
      from_tuple_2000_1 from_tuple_2002_1)

lemma example_time_second:
  "best_fit_time self [36526, 37257] =
     (Inr ((2000, 1, 1), (2002, 2, 1)), self\<lparr>TIMEmin := 36526, TIMEmax := 37288\<rparr>)"
  by (simp add: best_fit_time_def py_index_def as_tuple_36526 as_tuple_37257
      from_tuple_2000_1 from_tuple_2002_2)

lemma civil_of_first:
  assumes "0 \<le> Mp" "Mp \<le> 11"
  shows "civil_year (month_start Yp Mp) = (if 10 \<le> Mp then Yp - 4715 else Yp - 4716)"
    and "civil_month (month_start Yp Mp) = (if 10 \<le> Mp then Mp - 9 else Mp + 3)"
  by (simp_all add: civil_year_def civil_month_def march_of_month_start [OF assms]
      civil_of_month_start [OF assms])

lemma civil_of_first_same:
  "civil_year (month_start (march_year j) (march_month j)) = civil_year j"
  "civil_month (month_start (march_year j) (march_month j)) = civil_month j"
  using civil_of_first [where Mp = "march_month j" and Yp = "march_year j", OF march_month_bounds]
  by (simp_all add: civil_year_def civil_month_def)

lemma civil_of_first_after:
  "(civil_year (month_start (fst (march_after j)) (snd (march_after j))),
    civil_month (month_start (fst (march_after j)) (snd (march_after j))), 1)
   = month_after (civil_year j) (civil_month j)"
  using civil_of_first [where Mp = "snd (march_after j)" and Yp = "fst (march_after j)",
      OF march_after_bounds(1,2)]
  by (simp add: month_after_march)

text \<open>A second time fit, on the bounds of a first one.\<close>

lemma best_fit_time_refit:
  assumes ne: "TIME \<noteq> []"
    and h: "61 \<le> hd TIME" "hd TIME < 2958404"
    and l: "61 \<le> last TIME" "last TIME < 2958404"
  shows "\<exists>start y2 m2 self1.
           best_fit_time self TIME = (Inr (start, (y2, m2, 1)), self1) \<and>
           (\<forall>self2. fst (best_fit_time self2 [TIMEmin self1, TIMEmax self1])
                      = Inr (start, month_after y2 m2))"
proof -
  define j0 where "j0 = xldays_of (hd TIME) + 2415019"
  define j1 where "j1 = xldays_of (last TIME) + 2415019"
  have x0: "xldays_of (hd TIME) \<le> 2958404" using h(2) xldays_of_less [of "hd TIME" 2958404] by simp
  have x1: "xldays_of (last TIME) \<le> 2958404" using l(2) xldays_of_less [of "last TIME" 2958404] by simp
  have h': "61 \<le> hd TIME" "xldays_of (hd TIME) < 2958466" using h(1) x0 by simp_all
  have l': "61 \<le> last TIME" "xldays_of (last TIME) < 2958466" using l(1) x1 by simp_all
  have j1le: "j1 \<le> 5373423" using x1 by (simp add: j1_def)
  have nov: "civil_year j1 < 9999 \<or> (civil_year j1 = 9999 \<and> civil_month j1 \<le> 10)"
    by (rule civil_before_november_9999 [OF j1le])
  then have dec: "civil_year (xldays_of (last TIME) + 2415019) < 9999 \<or>
      civil_month (xldays_of (last TIME) + 2415019) \<le> 11"
    unfolding j1_def by auto
  define tmin where "tmin = month_start (march_year j0) (march_month j0) - 2415019"
  define tmax where "tmax = month_start (fst (march_after j1)) (snd (march_after j1)) - 2415019"
  define self1 where "self1 = self\<lparr>TIMEmin := of_int tmin, TIMEmax := of_int tmax\<rparr>"
  define y2 where "y2 = fst (month_after (civil_year j1) (civil_month j1))"
  define m2 where "m2 = fst (snd (month_after (civil_year j1) (civil_month j1)))"
  have ma: "month_after (civil_year j1) (civil_month j1) = (y2, m2, 1)"
    by (simp add: y2_def m2_def month_after_def)
  have res: "best_fit_time self TIME = (Inr ((civil_year j0, civil_month j0, 1), (y2, m2, 1)), self1)"
    unfolding self1_def tmin_def tmax_def j0_def j1_def ma [unfolded j1_def, symmetric]
    by (rule best_fit_time_value [OF ne h' l' dec])
  have lo: "2415080 \<le> j0" "2415080 \<le> j1"
    using h(1) l(1) xldays_of_bounds(1) [of "hd TIME"] xldays_of_bounds(1) [of "last TIME"]
    unfolding j0_def j1_def by (simp_all add: le_floor_iff) linarith+
  have y0: "6616 \<le> march_year j0" "6616 \<le> march_year j1"
    using lo by (simp_all add: march_year_lower)
  have hi0: "march_year j0 < 14715 \<or> (march_year j0 = 14715 \<and> march_month j0 < 10)"
    using march_le [of j0 5373484] x0 by (auto simp: march_end_9999 j0_def)
  have b0: "61 \<le> tmin" "tmin < 2958466"
    unfolding tmin_def using first_of_month_serial(3,4) [OF march_month_bounds y0(1) hi0] by simp_all
  have y1: "6616 \<le> fst (march_after j1)" using y0(2) march_after_bounds(3) [of j1] by simp
  have hi1: "fst (march_after j1) < 14715 \<or>
      (fst (march_after j1) = 14715 \<and> snd (march_after j1) < 10)"
  proof -
    have "march_year j1 < 14715 \<or> (march_year j1 = 14715 \<and> march_month j1 \<le> 7)"
      using march_le [OF j1le] by (auto simp: march_october_9999)
    with march_month_bounds [of j1] show ?thesis by (auto simp: march_after_def)
  qed
  have b1: "61 \<le> tmax" "tmax < 2958466"
    unfolding tmax_def using first_of_month_serial(3,4) [OF march_after_bounds(1,2) y1 hi1] by simp_all
  have c0: "civil_year (tmin + 2415019) = civil_year j0" "civil_month (tmin + 2415019) = civil_month j0"
    unfolding tmin_def by (simp_all add: civil_of_first_same)
  have c1: "civil_year (tmax + 2415019) = y2" "civil_month (tmax + 2415019) = m2"
    unfolding tmax_def using civil_of_first_after [of j1] by (simp_all add: ma)
  have dec2: "civil_year (xldays_of (last [of_int tmin, of_int tmax :: real]) + 2415019) < 9999 \<or>
      civil_month (xldays_of (last [of_int tmin, of_int tmax :: real]) + 2415019) \<le> 11"
    using nov ma civil_month_bounds [of j1] by (auto simp: c1 month_after_def split: if_splits)
  have second: "fst (best_fit_time self2 [TIMEmin self1, TIMEmax self1])
      = Inr ((civil_year j0, civil_month j0, 1), month_after y2 m2)" for self2
  proof -
    have "[of_int tmin, of_int tmax :: real] \<noteq> []"
      "61 \<le> hd [of_int tmin, of_int tmax :: real]"
      "xldays_of (hd [of_int tmin, of_int tmax :: real]) < 2958466"
      "61 \<le> last [of_int tmin, of_int tmax :: real]"
      "xldays_of (last [of_int tmin, of_int tmax :: real]) < 2958466"
      using b0 b1 by simp_all
    from best_fit_time_value [OF this dec2, of self2]
    show ?thesis by (simp add: self1_def c0 c1)
  qed
  from res second show ?thesis by blast
qed

lemma nearest_to_candidate:
  assumes "s0 \<in> set candidate_steps" "s \<in> set candidate_steps"
    and "\<forall>c\<in>set candidate_steps. \<bar>s - s0\<bar> \<le> \<bar>c - s0\<bar>"
  shows "s = s0"
proof -
  from assms(1,3) have "\<bar>s - s0\<bar> \<le> \<bar>s0 - s0\<bar>" by blast
  then show ?thesis by simp
qed

text \<open>A second fit of the scale, on levels that span \<open>NZGrid - 5\<close> steps from the origin.\<close>

lemma best_fit_waterlvl_refit:
  assumes ds: "wldset selfb = Some dsb"
    and vs: "waterlvl_values selfb dsb = map Num rsb"
    and ne: "rsb \<noteq> []"
    and grid: "1 \<le> NZGrid selfb - 5"
    and s: "s \<in> set candidate_steps"
    and k: "origin = of_int k * s"
    and datum: "WLdatum selfb = 0 \<or> WLdatum selfb = 1"
    and mbgs: "WLdatum selfb = 0 \<longrightarrow>
        Max (set rsb) = origin \<and> Min (set rsb) = origin - of_int (NZGrid selfb - 5) * s"
    and masl: "WLdatum selfb = 1 \<longrightarrow>
        Min (set rsb) = origin \<and> Max (set rsb) = origin + of_int (NZGrid selfb - 5) * s"
  shows "fst (best_fit_waterlvl selfb) = Inr (Num s, Num origin)"
proof -
  have g: "NZGrid selfb \<noteq> 5" "of_int (NZGrid selfb - 5) \<noteq> (0 :: real)" using grid by simp_all
  have spos: "s \<noteq> 0" using candidates_bounds [OF s] by simp
  have "Max (set rsb) - Min (set rsb) = of_int (NZGrid selfb - 5) * s"
    using datum mbgs masl by auto
  then have t: "(Max (set rsb) - Min (set rsb)) / of_int (NZGrid selfb - 5) = s"
    using g(2) by (simp add: field_simps)
  from best_fit_waterlvl_finite [OF ds vs ne g(1)]
  obtain i where i: "i < length candidate_steps"
    and least: "\<forall>j<length candidate_steps.
              \<bar>candidate_steps ! i - (Max (set rsb) - Min (set rsb)) / of_int (NZGrid selfb - 5)\<bar>
              \<le> \<bar>candidate_steps ! j - (Max (set rsb) - Min (set rsb)) / of_int (NZGrid selfb - 5)\<bar>"
    and res: "best_fit_waterlvl selfb =
             (let s = candidate_steps ! i in
              if WLdatum selfb = 0 then
                (Inr (Num s, Num (s * of_int \<lceil>Max (set rsb) / s\<rceil>)),
                 selfb\<lparr>WLscale := Num s, WLmin := Num (s * of_int \<lceil>Max (set rsb) / s\<rceil>)\<rparr>)
              else if WLdatum selfb = 1 then
                (Inr (Num s, Num (s * of_int \<lfloor>Min (set rsb) / s\<rfloor>)),
                 selfb\<lparr>WLscale := Num s, WLmin := Num (s * of_int \<lfloor>Min (set rsb) / s\<rfloor>)\<rparr>)
              else (Inl UnboundLocalError, selfb\<lparr>WLscale := Num s\<rparr>))"
    by blast
  have mem: "candidate_steps ! i \<in> set candidate_steps" using i by simp
  have "\<forall>c\<in>set candidate_steps. \<bar>candidate_steps ! i - s\<bar> \<le> \<bar>c - s\<bar>"
    using least unfolding t by (auto simp: in_set_conv_nth)
  from nearest_to_candidate [OF s mem this] have eq_s: "candidate_steps ! i = s" .
  have q: "origin / s = of_int k" using k spos by simp
  show ?thesis
  proof (cases "WLdatum selfb = 0")
    case True
    with mbgs have "Max (set rsb) = origin" by simp
    with res True eq_s q k show ?thesis by (simp add: Let_def mult.commute)
  next
    case False
    with datum have d: "WLdatum selfb = 1" by simp
    with masl have "Min (set rsb) = origin" by simp
    with res d eq_s q k show ?thesis by (simp add: Let_def mult.commute)
  qed
qed

text \<open>
  Claim C8, as stated, does not hold. For the levels 0 and 10 with eight grid divisions
  the fitted scale is step 3.3 from origin 13.2, and the axis of \<^verbatim>\<open>setup_waterlvl_scale\<close>
  runs from -6.6 to 13.2; a fit of these two bounds gives step 5 from origin 15. For the
  serial days 36540 to 37245 (2000-01-15 to 2001-12-20) the fitted bounds are 36526 and
  37257 (2000-01-01 and 2002-01-01); a fit of these two bounds ends at 2002-02-01.
\<close>

theorem refit_bounds_counterexample:
  "fst (best_fit_waterlvl example_refit) = Inr (Num 3.3, Num 13.2) \<and>
   setup_waterlvl_scale (snd (best_fit_waterlvl example_refit)) = (Num (- 6.6), Num 13.2) \<and>
   fst (best_fit_waterlvl ((snd (best_fit_waterlvl example_refit))
      \<lparr>wldset := Some \<lparr>WL = [Num (- 6.6), Num 13.2], Elevation = Num 100\<rparr>\<rparr>))
     = Inr (Num 5, Num 15) \<and>
   fst (best_fit_time Hydrograph_init [36540, 37245]) = Inr ((2000, 1, 1), (2002, 1, 1)) \<and>
   TIMEmin (snd (best_fit_time Hydrograph_init [36540, 37245])) = 36526 \<and>
   TIMEmax (snd (best_fit_time Hydrograph_init [36540, 37245])) = 37257 \<and>
   fst (best_fit_time (snd (best_fit_time Hydrograph_init [36540, 37245])) [36526, 37257])
     = Inr ((2000, 1, 1), (2002, 2, 1))"
proof -
  have f: "snd (best_fit_waterlvl example_refit)
      = example_refit\<lparr>WLscale := Num 3.3, WLmin := Num 13.2\<rparr>"
    by (simp only: example_refit_first snd_conv)
  have t: "snd (best_fit_time Hydrograph_init [36540, 37245])
      = Hydrograph_init\<lparr>TIMEmin := 36526, TIMEmax := 37257\<rparr>"
    by (simp only: example_time_first snd_conv)
  show ?thesis
    unfolding f t
  proof (intro conjI)
    show "fst (best_fit_waterlvl example_refit) = Inr (Num 3.3, Num 13.2)"
      by (simp only: example_refit_first fst_conv)
    show "setup_waterlvl_scale (example_refit\<lparr>WLscale := Num 3.3, WLmin := Num 13.2\<rparr>)
        = (Num (- 6.6), Num 13.2)"
      by (rule example_refit_limits)
    show "fst (best_fit_waterlvl (example_refit\<lparr>WLscale := Num 3.3, WLmin := Num 13.2,
        wldset := Some \<lparr>WL = [Num (- 6.6), Num 13.2], Elevation = Num 100\<rparr>\<rparr>))
        = Inr (Num 5, Num 15)"
      by (rule example_refit_second)
    show "fst (best_fit_time Hydrograph_init [36540, 37245]) = Inr ((2000, 1, 1), (2002, 1, 1))"
      by (simp only: example_time_first fst_conv)
    show "TIMEmin (Hydrograph_init\<lparr>TIMEmin := 36526, TIMEmax := 37257\<rparr>) = 36526" by simp
    show "TIMEmax (Hydrograph_init\<lparr>TIMEmin := 36526, TIMEmax := 37257\<rparr>) = 37257" by simp
    show "fst (best_fit_time (Hydrograph_init\<lparr>TIMEmin := 36526, TIMEmax := 37257\<rparr>) [36526, 37257])
        = Inr ((2000, 1, 1), (2002, 2, 1))"
      by (simp only: example_time_second fst_conv)
  qed
qed

text \<open>
  Claim C8, amended. A fit of the scale on levels that run from the fitted origin over
  \<open>NZGrid - 5\<close> fitted steps (downwards for datum 0, upwards for datum 1) returns the
  fitted step and origin again. A fit of the time axis on its own fitted bounds returns
  the same start, and as end the first day of the month after the fitted end.
\<close>

theorem refit_on_fitted_bounds:
  assumes "wldset self = Some ds"
    and "waterlvl_values self ds = map Num rs"
    and "rs \<noteq> []"
    and "1 \<le> NZGrid self - 5"
    and "WLdatum self = 0 \<or> WLdatum self = 1"
    and "TIME \<noteq> []"
    and "61 \<le> hd TIME" and "hd TIME < 2958404"
    and "61 \<le> last TIME" and "last TIME < 2958404"
  shows "\<exists>s origin self1 start y2 m2 self1'.
           best_fit_waterlvl self = (Inr (Num s, Num origin), self1) \<and>
           (\<forall>self2 ds2 rs2.
              wldset self2 = Some ds2 \<and> waterlvl_values self2 ds2 = map Num rs2 \<and> rs2 \<noteq> [] \<and>
              NZGrid self2 = NZGrid self \<and> WLdatum self2 = WLdatum self \<and>
              (WLdatum self = 0 \<longrightarrow>
                 Max (set rs2) = origin \<and> Min (set rs2) = origin - of_int (NZGrid self - 5) * s) \<and>
              (WLdatum self = 1 \<longrightarrow>
                 Min (set rs2) = origin \<and> Max (set rs2) = origin + of_int (NZGrid self - 5) * s)
              \<longrightarrow> fst (best_fit_waterlvl self2) = Inr (Num s, Num origin)) \<and>
           best_fit_time self TIME = (Inr (start, (y2, m2, 1)), self1') \<and>
           (\<forall>self2. fst (best_fit_time self2 [TIMEmin self1', TIMEmax self1'])
                      = Inr (start, month_after y2 m2))"
proof -
  have grid: "NZGrid self \<noteq> 5" using assms(4) by simp
  from best_fit_waterlvl_finite [OF assms(1,2,3) grid]
  obtain i where i: "i < length candidate_steps"
    and res: "best_fit_waterlvl self =
             (let s = candidate_steps ! i in
              if WLdatum self = 0 then
                (Inr (Num s, Num (s * of_int \<lceil>Max (set rs) / s\<rceil>)),
                 self\<lparr>WLscale := Num s, WLmin := Num (s * of_int \<lceil>Max (set rs) / s\<rceil>)\<rparr>)
              else if WLdatum self = 1 then
                (Inr (Num s, Num (s * of_int \<lfloor>Min (set rs) / s\<rfloor>)),
                 self\<lparr>WLscale := Num s, WLmin := Num (s * of_int \<lfloor>Min (set rs) / s\<rfloor>)\<rparr>)
              else (Inl UnboundLocalError, self\<lparr>WLscale := Num s\<rparr>))"
    by blast
  define s where "s = candidate_steps ! i"
  have mem: "s \<in> set candidate_steps" using i by (simp add: s_def)
  from fitted_origin [OF res [unfolded Let_def s_def [symmetric]] assms(5)]
  obtain origin and k :: int where
    first: "best_fit_waterlvl self =
       (Inr (Num s, Num origin), self\<lparr>WLscale := Num s, WLmin := Num origin\<rparr>)"
    and k: "origin = of_int k * s"
    by blast
  have again: "fst (best_fit_waterlvl self2) = Inr (Num s, Num origin)"
    if "wldset self2 = Some ds2 \<and> waterlvl_values self2 ds2 = map Num rs2 \<and> rs2 \<noteq> [] \<and>
        NZGrid self2 = NZGrid self \<and> WLdatum self2 = WLdatum self \<and>
        (WLdatum self = 0 \<longrightarrow>
           Max (set rs2) = origin \<and> Min (set rs2) = origin - of_int (NZGrid self - 5) * s) \<and>
        (WLdatum self = 1 \<longrightarrow>
           Min (set rs2) = origin \<and> Max (set rs2) = origin + of_int (NZGrid self - 5) * s)"
    for self2 ds2 rs2
    using that assms(4,5)
    by (intro best_fit_waterlvl_refit [where dsb = ds2 and rsb = rs2 and k = k] mem k) simp_all
  from best_fit_time_refit [OF assms(6-10), of self]
  obtain start y2 m2 self1' where
    t: "best_fit_time self TIME = (Inr (start, (y2, m2, 1)), self1')"
    "\<forall>self2. fst (best_fit_time self2 [TIMEmin self1', TIMEmax self1']) = Inr (start, month_after y2 m2)"
    by blast
  from first again t show ?thesis by blast
qed

theorem refit_on_fitted_bounds_witness:
  "\<exists>s origin self1 start y2 m2 self1'.
     best_fit_waterlvl example_refit = (Inr (Num s, Num origin), self1) \<and>
     fst (best_fit_waterlvl
            (example_refit\<lparr>wldset := Some \<lparr>WL = [Num origin, Num (origin - 3 * s)],
                                             Elevation = Num 100\<rparr>\<rparr>))
       = Inr (Num s, Num origin) \<and>
     best_fit_time example_refit [36540, 37245] = (Inr (start, (y2, m2, 1)), self1') \<and>
     fst (best_fit_time example_refit [TIMEmin self1', TIMEmax self1'])
       = Inr (start, month_after y2 m2)"
proof -
  have v: "wldset example_refit = Some \<lparr>WL = [Num 0, Num 10], Elevation = Num 100\<rparr>"
    "waterlvl_values example_refit \<lparr>WL = [Num 0, Num 10], Elevation = Num 100\<rparr> = map Num [0, 10]"
    "[0, 10 :: real] \<noteq> []" "1 \<le> NZGrid example_refit - 5"
    "WLdatum example_refit = 0 \<or> WLdatum example_refit = 1"
    "[36540, 37245 :: real] \<noteq> []"
    "61 \<le> hd [36540, 37245 :: real]" "hd [36540, 37245 :: real] < 2958404"
    "61 \<le> last [36540, 37245 :: real]" "last [36540, 37245 :: real] < 2958404"
    by (simp_all add: example_refit_def Hydrograph_init_def waterlvl_values_def)
  from refit_on_fitted_bounds [OF v]
  obtain s origin self1 start y2 m2 self1' where
    a: "best_fit_waterlvl example_refit = (Inr (Num s, Num origin), self1)"
    and b: "\<And>selfb dsb rsb.
              wldset selfb = Some dsb \<and> waterlvl_values selfb dsb = map Num rsb \<and> rsb \<noteq> [] \<and>
              NZGrid selfb = NZGrid example_refit \<and> WLdatum selfb = WLdatum example_refit \<and>
              (WLdatum example_refit = 0 \<longrightarrow>
                 Max (set rsb) = origin \<and>
                 Min (set rsb) = origin - of_int (NZGrid example_refit - 5) * s) \<and>
              (WLdatum example_refit = 1 \<longrightarrow>
                 Min (set rsb) = origin \<and>
                 Max (set rsb) = origin + of_int (NZGrid example_refit - 5) * s)
              \<Longrightarrow> fst (best_fit_waterlvl selfb) = Inr (Num s, Num origin)"
    and c: "best_fit_time example_refit [36540, 37245] = (Inr (start, (y2, m2, 1)), self1')"
    and d: "\<And>self2. fst (best_fit_time self2 [TIMEmin self1', TIMEmax self1'])
                      = Inr (start, month_after y2 m2)"
    by blast
  have "Num s = Num 3.3" using a example_refit_first by simp
  then have s: "0 \<le> s" by simp
  have "fst (best_fit_waterlvl
            (example_refit\<lparr>wldset := Some \<lparr>WL = [Num origin, Num (origin - 3 * s)],
                                             Elevation = Num 100\<rparr>\<rparr>))
       = Inr (Num s, Num origin)"
    using s
    by (intro b [where dsb = "\<lparr>WL = [Num origin, Num (origin - 3 * s)], Elevation = Num 100\<rparr>"
          and rsb = "[origin, origin - 3 * s]"])
       (simp add: example_refit_def Hydrograph_init_def waterlvl_values_def max_def min_def)
  with a c d show ?thesis by blast
qed

section \<open>The offset of the tick labels\<close>

lemma sin_45_degrees: "sin (np_radians 45) = sqrt 2 / 2"
proof -
  have "np_radians 45 = pi / 4" by (simp add: np_radians_def)
  then show ?thesis by (simp only: sin_45)
qed

text \<open>
  Claim C9, as stated, takes the offset to be the text height times \<open>sin 45\<degree>\<close> times the
  height to width ratio times \<open>TIMEmax - TIMEmin\<close>. The code multiplies by
  \<open>TIMEmax - TIMEmin + 1\<close>: for a text height of 1, square axes and a time axis of 365
  days the offset is \<open>366 * sin 45\<degree>\<close>, not \<open>365 * sin 45\<degree>\<close>.
\<close>

theorem xticks_labels_offset_span_counterexample:
  "xticks_labels_offset (Hydrograph_init\<lparr>TIMEmin := 36526, TIMEmax := 36891\<rparr>)
     (Num 1) (Num 1) (Num 1)
   \<noteq> Num (1 * sin (np_radians 45) * (1 / 1) * (36891 - 36526))"
  by (simp add: xticks_labels_offset_def Hydrograph_init_def sin_45_degrees)

text \<open>
  Claim C9, amended. For a finite text height \<open>h\<close> and finite axes height \<open>H\<close> and width
  \<open>W \<noteq> 0\<close>, the offset of the labels is \<open>h * sin 45\<degree> * (H / W) * (TIMEmax - TIMEmin + 1)\<close>:
  it depends on the measured text height, the size of the axes and the bounds of the time
  axis only, not on any label.
\<close>

theorem xticks_labels_offset_value:
  assumes "W \<noteq> 0"
  shows "xticks_labels_offset self (Num h) (Num H) (Num W)
         = Num (h * sin (np_radians 45) * (H / W) * (TIMEmax self - TIMEmin self + 1))"
  using assms by (simp add: xticks_labels_offset_def)

theorem xticks_labels_offset_value_witness:
  "xticks_labels_offset (Hydrograph_init\<lparr>TIMEmin := 36526, TIMEmax := 36891\<rparr>)
     (Num 2) (Num 3) (Num 6) = Num (366 * (sqrt 2 / 2))"
  using xticks_labels_offset_value [of 6 "Hydrograph_init\<lparr>TIMEmin := 36526, TIMEmax := 36891\<rparr>" 2 3]
  by (simp add: sin_45_degrees)

end
